theory Spec2Isabelle
  imports Main
begin

section \<open>Data model of \<open>libpkg/pkg_add.c\<close>\<close>

text \<open>
  Return codes of the library (\<open>pkg.h\<close>).  The codes a collaborator can hand back
  as a failure are kept in a type of their own, \<open>err_code\<close>, so that a failing
  collaborator can never answer \<open>EPKG_OK\<close> or \<open>EPKG_END\<close>.
\<close>

datatype pkg_error_t =
  EPKG_OK | EPKG_END | EPKG_WARN | EPKG_FATAL | EPKG_REQUIRED | EPKG_INSTALLED | EPKG_DEPENDENCY

datatype err_code = E_WARN | E_FATAL | E_REQUIRED | E_INSTALLED | E_DEPENDENCY

fun epkg :: "err_code \<Rightarrow> pkg_error_t" where
  "epkg E_WARN = EPKG_WARN"
| "epkg E_FATAL = EPKG_FATAL"
| "epkg E_REQUIRED = EPKG_REQUIRED"
| "epkg E_INSTALLED = EPKG_INSTALLED"
| "epkg E_DEPENDENCY = EPKG_DEPENDENCY"

datatype pkg_t = PKG_FILE | PKG_REMOTE | PKG_INSTALLED | PKG_NOTFOUND

datatype pkg_script_t =
  PKG_SCRIPT_PRE_INSTALL | PKG_SCRIPT_POST_INSTALL
| PKG_SCRIPT_PRE_DEINSTALL | PKG_SCRIPT_POST_DEINSTALL
| PKG_SCRIPT_PRE_UPGRADE | PKG_SCRIPT_POST_UPGRADE
| PKG_SCRIPT_INSTALL | PKG_SCRIPT_DEINSTALL | PKG_SCRIPT_UPGRADE

datatype pkg_exec_t = PKG_EXEC | PKG_UNEXEC

record pkg_script =
  pkg_script_type :: pkg_script_t
  pkg_script_data :: string

record pkg_exec =
  pkg_exec_type :: pkg_exec_t
  pkg_exec_cmd :: string

text \<open>
  An element of \<open>pkg_deps(pkg)\<close>.  In the C code it is a \<open>struct pkg\<close> of its own;
  only its name, version, origin and type are read by \<open>pkg_add\<close>.
\<close>

record dep =
  dep_name :: string
  dep_version :: string
  dep_origin :: string
  dep_type :: pkg_t

text \<open>
  \<open>struct pkg\<close>.  A \<open>NULL\<close> script or exec array and an empty one both run the
  loops of \<open>pkg_add\<close> zero times; both are the empty list here.
\<close>

record pkg =
  pkg_name :: string
  pkg_version :: string
  pkg_origin :: string
  pkg_deps :: "dep list"
  pkg_scripts :: "pkg_script list"
  pkg_execs :: "pkg_exec list"

subsection \<open>The archive\<close>

datatype archive_rc = ARCHIVE_OK | ARCHIVE_EOF | ARCHIVE_FAILED

record archive_entry =
  ae_pathname :: string
  ae_content :: string

text \<open>What \<open>archive_read_next_header\<close> will find: a header, or a read error.
  The end of the list is \<open>ARCHIVE_EOF\<close>.\<close>

datatype hdr = Header archive_entry | BadHeader

record archive =
  a_headers :: "hdr list"
  a_error :: string

datatype open_result =
  OpenFail err_code string
| OpenEnd pkg archive
| OpenOk pkg archive archive_entry

subsection \<open>The world the transaction acts on\<close>

text \<open>Calls to the collaborators, in the order they are made.\<close>

datatype event =
  Open string
| Shell string int
| Extract string string
| Finish
| Register pkg

text \<open>
  The database, the files on disk, the message of \<open>pkg_error_string\<close>, the storage
  of \<open>dirname(3)\<close> and the calls made so far.  On the platform of this code
  \<open>dirname\<close> returns a pointer to storage of its own, which every later call of
  \<open>dirname\<close> overwrites; \<open>basedir\<close> in \<open>pkg_add\<close> is that pointer, so what it
  points to is a part of the world.
\<close>

record world =
  db :: "pkg list"
  files :: "string \<rightharpoonup> string"
  errstr :: string
  dirbuf :: string
  trace :: "event list"

text \<open>
  The collaborators whose code is outside \<open>pkg_add.c\<close>: the template classifier,
  libarchive's extraction status per target path, the archive opener, the faults of the
  database engine, \<open>access(2)\<close>, \<open>system(3)\<close> and the outcome of registration.
\<close>

record env =
  env_is_conf_file :: "string \<Rightarrow> string option"
  env_extract_ok :: "string \<Rightarrow> bool"
  env_open2 :: "string \<Rightarrow> open_result"
  env_query_null :: "string \<Rightarrow> bool"
  env_it_fault :: "string \<Rightarrow> err_code option"
  env_access :: "string \<Rightarrow> bool"
  env_system :: "string \<Rightarrow> int"
  env_register :: "pkg \<Rightarrow> (err_code \<times> string) option"

section \<open>Helpers from libc and the rest of libpkg\<close>

definition MAXPATHLEN :: nat where
  "MAXPATHLEN = 1024"

definition ENOENT :: int where
  "ENOENT = 2"

text \<open>Modelled from the spec: \<open>pkg_error_set\<close> (\<open>pkg_error.c\<close>) stores the message that
  \<open>pkg_error_string\<close> returns and hands the code back.\<close>

definition pkg_error_set :: "pkg_error_t \<Rightarrow> string \<Rightarrow> world \<Rightarrow> pkg_error_t \<times> world" where
  "pkg_error_set code msg w = (code, w\<lparr>errstr := msg\<rparr>)"

text \<open>Modelled from the spec: the macro \<open>ERROR_BAD_ARG\<close> (\<open>pkg_error.h\<close>), the generic
  fatal error of argument validation.\<close>

definition ERROR_BAD_ARG :: "string \<Rightarrow> world \<Rightarrow> pkg_error_t \<times> world" where
  "ERROR_BAD_ARG name w = pkg_error_set EPKG_FATAL (''Bad argument '' @ name) w"

text \<open>\<open>strrchr(s, c)\<close>: the suffix of \<open>s\<close> starting at the last \<open>c\<close>, or \<open>NULL\<close>.\<close>

fun strrchr :: "string \<Rightarrow> char \<Rightarrow> string option" where
  "strrchr [] c = None"
| "strrchr (x # xs) c =
     (case strrchr xs c of
        Some r \<Rightarrow> Some r
      | None \<Rightarrow> if x = c then Some (x # xs) else None)"

definition rstrip_slash :: "string \<Rightarrow> string" where
  "rstrip_slash s = rev (dropWhile (\<lambda>c. c = CHR ''/'') (rev s))"

text \<open>The string that \<open>dirname(3)\<close> computes, as POSIX describes it.\<close>

definition dirname :: "string \<Rightarrow> string" where
  "dirname path =
     (let p = rstrip_slash path in
      if p = [] then (if path = [] then ''.'' else ''/'')
      else
        let d = rev (dropWhile (\<lambda>c. c \<noteq> CHR ''/'') (rev p)) in
        if d = [] then ''.''
        else
          let d' = rstrip_slash d in
          if d' = [] then ''/'' else d')"

text \<open>\<open>lstat(2)\<close> returns 0 when the path exists and -1 (with \<open>errno\<close> set) when it
  does not.\<close>

definition lstat :: "world \<Rightarrow> string \<Rightarrow> int" where
  "lstat w path = (if files w path = None then - 1 else 0)"

text \<open>\<open>system(3)\<close>: the command runs, its exit status is returned.\<close>

definition system :: "env \<Rightarrow> string \<Rightarrow> world \<Rightarrow> int \<times> world" where
  "system env cmd w =
     (env_system env cmd, w\<lparr>trace := trace w @ [Shell cmd (env_system env cmd)]\<rparr>)"

text \<open>Modelled from the spec: the package database (\<open>pkgdb.c\<close>).  An exact query by
  origin yields an iterator over the matching records, or \<open>NULL\<close> when the engine fails;
  \<open>pkgdb_it_next\<close> answers \<open>EPKG_OK\<close> for a row, \<open>EPKG_END\<close> for none, or an error.\<close>

definition pkgdb_query :: "env \<Rightarrow> world \<Rightarrow> string \<Rightarrow> pkg list option" where
  "pkgdb_query env w origin =
     (if env_query_null env origin then None
      else Some (filter (\<lambda>r. pkg_origin r = origin) (db w)))"

definition pkgdb_it_next :: "env \<Rightarrow> string \<Rightarrow> pkg list \<Rightarrow> pkg_error_t" where
  "pkgdb_it_next env origin it =
     (case env_it_fault env origin of
        Some c \<Rightarrow> epkg c
      | None \<Rightarrow> (case it of [] \<Rightarrow> EPKG_END | r # rs \<Rightarrow> EPKG_OK))"

text \<open>Modelled from the spec: \<open>pkgdb_register_pkg\<close> persists the descriptor as a new
  record, or fails with a message.\<close>

definition pkgdb_register_pkg :: "env \<Rightarrow> pkg \<Rightarrow> world \<Rightarrow> pkg_error_t \<times> world" where
  "pkgdb_register_pkg env p w =
     (let w1 = w\<lparr>trace := trace w @ [Register p]\<rparr> in
      case env_register env p of
        None \<Rightarrow> (EPKG_OK, w1\<lparr>db := db w1 @ [p]\<rparr>)
      | Some (c, msg) \<Rightarrow> (epkg c, w1\<lparr>errstr := msg\<rparr>))"

text \<open>Modelled from the spec: \<open>pkg_resolvdeps\<close> recomputes the state of every declared
  dependency from the database: installed when a record with its origin exists,
  not found otherwise.  It never fails.\<close>

definition resolve_dep :: "world \<Rightarrow> dep \<Rightarrow> dep" where
  "resolve_dep w d =
     d\<lparr>dep_type := (if dep_origin d \<in> set (map pkg_origin (db w))
                     then PKG_INSTALLED else PKG_NOTFOUND)\<rparr>"

definition pkg_resolvdeps :: "pkg \<Rightarrow> world \<Rightarrow> pkg" where
  "pkg_resolvdeps p w = p\<lparr>pkg_deps := map (resolve_dep w) (pkg_deps p)\<rparr>"

section \<open>\<open>do_extract\<close>\<close>

text \<open>\<open>archive_read_extract\<close>: writes the entry's content at its pathname, or fails.\<close>

definition archive_read_extract :: "env \<Rightarrow> archive_entry \<Rightarrow> world \<Rightarrow> archive_rc \<times> world" where
  "archive_read_extract env ae w =
     (if env_extract_ok env (ae_pathname ae)
      then (ARCHIVE_OK,
            w\<lparr>files := (files w)(ae_pathname ae \<mapsto> ae_content ae),
              trace := trace w @ [Extract (ae_pathname ae) (ae_content ae)]\<rparr>)
      else (ARCHIVE_FAILED, w))"

text \<open>
  The \<open>do ... while\<close> loop of \<open>do_extract\<close>.  The arguments are the current entry, the
  headers still to be read, the world and the value of \<open>ret\<close>; the result is
  \<open>retcode\<close>, \<open>ret\<close> and the world when the loop is left (by \<open>break\<close> or by its
  condition).
\<close>

fun do_extract_loop ::
  "env \<Rightarrow> string \<Rightarrow> archive_entry \<Rightarrow> hdr list \<Rightarrow> archive_rc \<Rightarrow> world
     \<Rightarrow> pkg_error_t \<times> archive_rc \<times> world"
where
  "do_extract_loop env aerr ae hs ret w =
     (case archive_read_extract env ae w of
        (r1, w1) \<Rightarrow>
          if r1 \<noteq> ARCHIVE_OK
          then (case pkg_error_set EPKG_FATAL aerr w1 of (rc, w2) \<Rightarrow> (rc, ret, w2))
          else
            (case (case env_is_conf_file env (ae_pathname ae) of
                     None \<Rightarrow> (ARCHIVE_OK, w1)
                   | Some path \<Rightarrow>
                       if lstat w1 path = ENOENT
                       then archive_read_extract env (ae\<lparr>ae_pathname := path\<rparr>) w1
                       else (ARCHIVE_OK, w1)) of
               (r2, w2) \<Rightarrow>
                 if r2 \<noteq> ARCHIVE_OK
                 then (case pkg_error_set EPKG_FATAL aerr w2 of (rc, w3) \<Rightarrow> (rc, ret, w3))
                 else
                   (case hs of
                      [] \<Rightarrow> (EPKG_OK, ARCHIVE_EOF, w2)
                    | BadHeader # rest \<Rightarrow> (EPKG_OK, ARCHIVE_FAILED, w2)
                    | Header ae' # rest \<Rightarrow> do_extract_loop env aerr ae' rest ARCHIVE_OK w2)))"

definition do_extract :: "env \<Rightarrow> archive \<Rightarrow> archive_entry \<Rightarrow> world \<Rightarrow> pkg_error_t \<times> world" where
  "do_extract env a ae w =
     (case do_extract_loop env (a_error a) ae (a_headers a) ARCHIVE_OK w of
        (retcode, ret, w') \<Rightarrow>
          if ret \<noteq> ARCHIVE_EOF then pkg_error_set EPKG_FATAL (a_error a) w'
          else (retcode, w'))"

section \<open>Scripts and exec directives\<close>

definition script_cmd :: "pkg \<Rightarrow> string \<Rightarrow> pkg_script \<Rightarrow> string" where
  "script_cmd p marker s =
     ''set -- '' @ pkg_name p @ ''-'' @ pkg_version p @ marker @ [CHR 0x0A] @ pkg_script_data s"

fun pre_install_scripts :: "env \<Rightarrow> pkg \<Rightarrow> pkg_script list \<Rightarrow> world \<Rightarrow> world" where
  "pre_install_scripts env p [] w = w"
| "pre_install_scripts env p (s # ss) w =
     (case pkg_script_type s of
        PKG_SCRIPT_INSTALL \<Rightarrow>
          pre_install_scripts env p ss (snd (system env (script_cmd p '' INSTALL'' s) w))
      | PKG_SCRIPT_PRE_INSTALL \<Rightarrow>
          pre_install_scripts env p ss (snd (system env (script_cmd p [] s) w))
      | _ \<Rightarrow> pre_install_scripts env p ss w)"

fun post_install_scripts :: "env \<Rightarrow> pkg \<Rightarrow> pkg_script list \<Rightarrow> world \<Rightarrow> world" where
  "post_install_scripts env p [] w = w"
| "post_install_scripts env p (s # ss) w =
     (case pkg_script_type s of
        PKG_SCRIPT_INSTALL \<Rightarrow>
          post_install_scripts env p ss (snd (system env (script_cmd p '' POST-INSTALL'' s) w))
      | PKG_SCRIPT_POST_INSTALL \<Rightarrow>
          post_install_scripts env p ss (snd (system env (script_cmd p [] s) w))
      | _ \<Rightarrow> post_install_scripts env p ss w)"

fun run_execs :: "env \<Rightarrow> pkg_exec list \<Rightarrow> world \<Rightarrow> world" where
  "run_execs env [] w = w"
| "run_execs env (e # es) w =
     (if pkg_exec_type e = PKG_EXEC
      then run_execs env es (snd (system env (pkg_exec_cmd e) w))
      else run_execs env es w)"

section \<open>Dependencies\<close>

text \<open>The \<open>snprintf\<close> into \<open>dpath\<close>, which holds at most \<open>MAXPATHLEN - 1\<close> characters.\<close>

definition dep_path :: "string \<Rightarrow> dep \<Rightarrow> string \<Rightarrow> string" where
  "dep_path basedir d ext =
     take (MAXPATHLEN - 1) (basedir @ ''/'' @ dep_name d @ ''-'' @ dep_version d @ ext)"

text \<open>
  The loop over \<open>deps[i]\<close>.  \<open>rec\<close> is the recursive call \<open>pkg_add(db, dpath, NULL)\<close>;
  it answers \<open>None\<close> when it does not return.  \<open>basedir\<close> is read where the
  \<open>snprintf\<close> reads it: it is \<open>dirbuf\<close> of the world of that moment, which a
  recursive call may have overwritten.  The result is \<open>retcode\<close>, the package (whose
  dependencies \<open>pkg_resolvdeps\<close> has updated) and the world.
\<close>

function deps_loop ::
  "(world \<Rightarrow> string \<Rightarrow> (pkg_error_t \<times> world) option) \<Rightarrow> env \<Rightarrow> string
     \<Rightarrow> pkg \<Rightarrow> world \<Rightarrow> nat \<Rightarrow> (pkg_error_t \<times> pkg \<times> world) option"
where
  "deps_loop rec env ext p w i =
     (if i < length (pkg_deps p) then
        (if dep_type (pkg_deps p ! i) = PKG_NOTFOUND then
           (if env_access env (dep_path (dirbuf w) (pkg_deps p ! i) ext) then
              (case rec w (dep_path (dirbuf w) (pkg_deps p ! i) ext) of
                 None \<Rightarrow> None
               | Some (rc, w') \<Rightarrow>
                   if rc = EPKG_OK
                   then deps_loop rec env ext (pkg_resolvdeps p w') w' (Suc i)
                   else
                     (case pkg_error_set EPKG_FATAL
                             (''error while installing ''
                                @ dep_path (dirbuf w) (pkg_deps p ! i) ext
                                @ '' (dependency): '' @ errstr w') w' of
                        (rc', w'') \<Rightarrow> Some (rc', p, w'')))
            else
              (case pkg_error_set EPKG_DEPENDENCY
                      (''missing '' @ dep_name (pkg_deps p ! i) @ ''-''
                         @ dep_version (pkg_deps p ! i) @ '' dependency'') w of
                 (rc', w'') \<Rightarrow> Some (rc', p, w'')))
         else deps_loop rec env ext p w (Suc i))
      else Some (EPKG_OK, p, w))"
  by pat_completeness auto
termination
  by (relation "measure (\<lambda>(rec, env, ext, p, w, i). length (pkg_deps p) - i)")
     (auto simp: pkg_resolvdeps_def)

declare deps_loop.simps [simp del]

section \<open>\<open>pkg_add\<close>\<close>

text \<open>The state at the label \<open>cleanup\<close>.  \<open>Unopened\<close>: \<open>pkg_open2\<close> has failed
  and has left \<open>a\<close> and \<open>pkg\<close> \<open>NULL\<close>; there is only \<open>retcode\<close>.
  \<open>Opened\<close>: \<open>retcode\<close> and the package, with an archive to release.\<close>

datatype at_cleanup =
  Unopened pkg_error_t world
| Opened pkg_error_t pkg world

text \<open>From the pre-install scripts to the exec directives.\<close>

definition install_steps ::
  "env \<Rightarrow> pkg \<Rightarrow> archive \<Rightarrow> archive_entry option \<Rightarrow> world \<Rightarrow> at_cleanup" where
  "install_steps env p a aeo w =
     (let w1 = pre_install_scripts env p (pkg_scripts p) w in
      case (case aeo of
              None \<Rightarrow> (EPKG_OK, w1)
            | Some ae \<Rightarrow> do_extract env a ae w1) of
        (retcode, w2) \<Rightarrow>
          if retcode \<noteq> EPKG_OK then Opened retcode p w2
          else Opened EPKG_OK p
                 (run_execs env (pkg_execs p)
                    (post_install_scripts env p (pkg_scripts p) w2)))"

text \<open>From the duplicate check on; \<open>aeo\<close> is \<open>None\<close> when \<open>pkg_open2\<close> answered
  \<open>EPKG_END\<close> (\<open>extract = false\<close>).  \<open>basedir = dirname(path)\<close> comes before the
  test of the extension, as in the source.\<close>

definition after_open ::
  "(world \<Rightarrow> string \<Rightarrow> (pkg_error_t \<times> world) option) \<Rightarrow> env \<Rightarrow> string
     \<Rightarrow> pkg \<Rightarrow> archive \<Rightarrow> archive_entry option \<Rightarrow> world \<Rightarrow> at_cleanup option" where
  "after_open rec env path p a aeo w =
     (case pkgdb_query env w (pkg_origin p) of
        None \<Rightarrow> Some (Opened EPKG_FATAL p w)
      | Some it \<Rightarrow>
          if pkgdb_it_next env (pkg_origin p) it = EPKG_OK
          then (case pkg_error_set EPKG_INSTALLED ''package already installed'' w of
                  (rc, w') \<Rightarrow> Some (Opened rc p w'))
          else if pkgdb_it_next env (pkg_origin p) it \<noteq> EPKG_END
          then Some (Opened (pkgdb_it_next env (pkg_origin p) it) p w)
          else
            (case strrchr path (CHR ''.'') of
               None \<Rightarrow>
                 (case pkg_error_set EPKG_FATAL (path @ '' has no extension'')
                         (w\<lparr>dirbuf := dirname path\<rparr>) of
                    (rc, w') \<Rightarrow> Some (Opened rc p w'))
             | Some ext \<Rightarrow>
                 (case deps_loop rec env ext (pkg_resolvdeps p w)
                         (w\<lparr>dirbuf := dirname path\<rparr>) 0 of
                    None \<Rightarrow> None
                  | Some (rc, p', w') \<Rightarrow>
                      if rc \<noteq> EPKG_OK then Some (Opened rc p' w')
                      else Some (install_steps env p' a aeo w'))))"

definition pkg_add_body ::
  "(world \<Rightarrow> string \<Rightarrow> (pkg_error_t \<times> world) option) \<Rightarrow> env \<Rightarrow> world \<Rightarrow> string
     \<Rightarrow> at_cleanup option" where
  "pkg_add_body rec env w path =
     (case env_open2 env path of
        OpenFail c msg \<Rightarrow>
          Some (Unopened (epkg c) (w\<lparr>errstr := msg, trace := trace w @ [Open path]\<rparr>))
      | OpenEnd p a \<Rightarrow>
          after_open rec env path p a None (w\<lparr>trace := trace w @ [Open path]\<rparr>)
      | OpenOk p a ae \<Rightarrow>
          after_open rec env path p a (Some ae) (w\<lparr>trace := trace w @ [Open path]\<rparr>))"

text \<open>
  The code after the label \<open>cleanup\<close>.  The out-parameter \<open>pkg_p\<close> is \<open>None\<close> for a
  \<open>NULL\<close> pointer and \<open>Some c\<close> for a pointer to a cell that holds \<open>c\<close>; the second
  component of the result is the cell afterwards.
\<close>

fun cleanup ::
  "env \<Rightarrow> pkg option option \<Rightarrow> at_cleanup \<Rightarrow> pkg_error_t \<times> pkg option option \<times> world" where
  "cleanup env pkg_p (Unopened retcode w) =
     (retcode, (case pkg_p of None \<Rightarrow> None | Some c \<Rightarrow> Some None), w)"
| "cleanup env pkg_p (Opened retcode p w) =
     (case (if retcode = EPKG_OK
            then pkgdb_register_pkg env p (w\<lparr>trace := trace w @ [Finish]\<rparr>)
            else (retcode, w\<lparr>trace := trace w @ [Finish]\<rparr>)) of
        (rc, w') \<Rightarrow>
          (rc,
           (case pkg_p of
              None \<Rightarrow> None
            | Some c \<Rightarrow> Some (if rc = EPKG_OK then Some p else None)),
           w'))"

text \<open>
  \<open>pkg_add\<close>.  The first argument bounds the depth of the recursion into dependencies
  (a cycle of dependencies makes the C function recurse for ever); \<open>None\<close> is the
  answer when the bound is reached.  \<open>path\<close> is \<open>None\<close> for a \<open>NULL\<close> pointer.
\<close>

fun pkg_add ::
  "nat \<Rightarrow> env \<Rightarrow> world \<Rightarrow> string option \<Rightarrow> pkg option option
     \<Rightarrow> (pkg_error_t \<times> pkg option option \<times> world) option"
where
  "pkg_add 0 env w path pkg_p = None"
| "pkg_add (Suc n) env w None pkg_p =
     (case ERROR_BAD_ARG ''path'' w of (rc, w') \<Rightarrow> Some (rc, pkg_p, w'))"
| "pkg_add (Suc n) env w (Some path) pkg_p =
     map_option (cleanup env pkg_p)
       (pkg_add_body
          (\<lambda>w' dpath. map_option (\<lambda>(rc, out, w''). (rc, w'')) (pkg_add n env w' (Some dpath) None))
          env w path)"

text \<open>The recursive call \<open>pkg_add(db, dpath, NULL)\<close> as the loop over the
  dependencies sees it: the returned code and the world.\<close>

definition nested_add :: "nat \<Rightarrow> env \<Rightarrow> world \<Rightarrow> string \<Rightarrow> (pkg_error_t \<times> world) option" where
  "nested_add n env w dpath =
     map_option (\<lambda>(rc, out, w'). (rc, w')) (pkg_add n env w (Some dpath) None)"

section \<open>Vocabulary of the properties\<close>

text \<open>What \<open>pkg_open2\<close> produced, when it did not fail: the package, the archive and
  the first payload entry, if any.\<close>

fun opened :: "open_result \<Rightarrow> (pkg \<times> archive \<times> archive_entry option) option" where
  "opened (OpenFail c msg) = None"
| "opened (OpenEnd p a) = Some (p, a, None)"
| "opened (OpenOk p a ae) = Some (p, a, Some ae)"

text \<open>The answer of the duplicate check: \<open>None\<close> when the iterator is \<open>NULL\<close>,
  otherwise the code of \<open>pkgdb_it_next\<close>.\<close>

definition lookup :: "env \<Rightarrow> world \<Rightarrow> string \<Rightarrow> pkg_error_t option" where
  "lookup env w origin = map_option (pkgdb_it_next env origin) (pkgdb_query env w origin)"

text \<open>The out-parameter after \<open>*pkg_p = NULL\<close>.\<close>

definition null_out :: "pkg option option \<Rightarrow> pkg option option" where
  "null_out pkg_p = (case pkg_p of None \<Rightarrow> None | Some c \<Rightarrow> Some None)"

section \<open>A concrete installation\<close>

text \<open>Modelled from the spec: \<open>is_conf_file\<close> (\<open>pkg_util.c\<close>), the ConfigFilePolicy.  A
  path that ends in the suffix \<open>.pkgconf\<close> is a template; the target is the path
  without the suffix.\<close>

definition is_conf_file :: "string \<Rightarrow> string option" where
  "is_conf_file path =
     (if 8 \<le> length path \<and> strrchr path (CHR ''.'') = Some ''.pkgconf''
      then Some (take (length path - 8) path) else None)"

definition depB :: dep where
  "depB = \<lparr>dep_name = ''B'', dep_version = ''1'', dep_origin = ''o/B'', dep_type = PKG_NOTFOUND\<rparr>"

definition depC :: dep where
  "depC = \<lparr>dep_name = ''C'', dep_version = ''1'', dep_origin = ''o/C'', dep_type = PKG_NOTFOUND\<rparr>"

definition depQ :: dep where
  "depQ = \<lparr>dep_name = ''Q'', dep_version = ''1'', dep_origin = ''o/Q'', dep_type = PKG_NOTFOUND\<rparr>"

definition depB2 :: dep where
  "depB2 = \<lparr>dep_name = ''B2'', dep_version = ''1'', dep_origin = ''o/B'', dep_type = PKG_NOTFOUND\<rparr>"

definition depF :: dep where
  "depF = \<lparr>dep_name = ''F'', dep_version = ''1'', dep_origin = ''o/F'', dep_type = PKG_NOTFOUND\<rparr>"

definition scrPre :: pkg_script where
  "scrPre = \<lparr>pkg_script_type = PKG_SCRIPT_PRE_INSTALL, pkg_script_data = ''p''\<rparr>"

definition scrIns :: pkg_script where
  "scrIns = \<lparr>pkg_script_type = PKG_SCRIPT_INSTALL, pkg_script_data = ''i''\<rparr>"

definition scrPost :: pkg_script where
  "scrPost = \<lparr>pkg_script_type = PKG_SCRIPT_POST_INSTALL, pkg_script_data = ''q''\<rparr>"

definition exE :: pkg_exec where
  "exE = \<lparr>pkg_exec_type = PKG_EXEC, pkg_exec_cmd = ''e''\<rparr>"

definition exU :: pkg_exec where
  "exU = \<lparr>pkg_exec_type = PKG_UNEXEC, pkg_exec_cmd = ''u''\<rparr>"

text \<open>\<open>A\<close> depends on \<open>B\<close> and \<open>C\<close>; \<open>B\<close> has no payload; \<open>D\<close> depends on \<open>C\<close> and
  \<open>B\<close>; \<open>E\<close> depends on \<open>F\<close>, whose archive exists and cannot be opened; \<open>G\<close>
  declares its install script before its pre-install script; \<open>H\<close> has no
  dependency, a payload and its scripts in the order pre-install, install,
  post-install; \<open>K\<close> depends on \<open>B\<close> and \<open>F\<close>; \<open>M\<close> has no payload and depends
  on \<open>B\<close>; \<open>N\<close> depends on \<open>B\<close> and on \<open>B2\<close>, which has the origin of
  \<open>B\<close> and no archive; \<open>P\<close> depends on \<open>Q\<close>, and the archive named after
  \<open>Q\<close> holds a package with the origin of \<open>P\<close>.\<close>

definition pkgA :: pkg where
  "pkgA = \<lparr>pkg_name = ''A'', pkg_version = ''1'', pkg_origin = ''o/A'',
            pkg_deps = [depB, depC], pkg_scripts = [], pkg_execs = []\<rparr>"

definition pkgB :: pkg where
  "pkgB = \<lparr>pkg_name = ''B'', pkg_version = ''1'', pkg_origin = ''o/B'',
            pkg_deps = [], pkg_scripts = [scrPre, scrIns, scrPost], pkg_execs = [exU, exE]\<rparr>"

definition pkgD :: pkg where
  "pkgD = \<lparr>pkg_name = ''D'', pkg_version = ''1'', pkg_origin = ''o/D'',
            pkg_deps = [depC, depB], pkg_scripts = [], pkg_execs = []\<rparr>"

definition pkgE :: pkg where
  "pkgE = \<lparr>pkg_name = ''E'', pkg_version = ''1'', pkg_origin = ''o/E'',
            pkg_deps = [depF], pkg_scripts = [], pkg_execs = []\<rparr>"

definition pkgG :: pkg where
  "pkgG = \<lparr>pkg_name = ''G'', pkg_version = ''1'', pkg_origin = ''o/G'',
            pkg_deps = [depB], pkg_scripts = [scrIns, scrPre, scrPost], pkg_execs = [exE]\<rparr>"

definition pkgH :: pkg where
  "pkgH = \<lparr>pkg_name = ''H'', pkg_version = ''1'', pkg_origin = ''o/H'',
            pkg_deps = [], pkg_scripts = [scrPre, scrIns, scrPost], pkg_execs = [exU, exE]\<rparr>"

definition pkgK :: pkg where
  "pkgK = \<lparr>pkg_name = ''K'', pkg_version = ''1'', pkg_origin = ''o/K'',
            pkg_deps = [depB, depF], pkg_scripts = [], pkg_execs = []\<rparr>"

definition pkgM :: pkg where
  "pkgM = \<lparr>pkg_name = ''M'', pkg_version = ''1'', pkg_origin = ''o/M'',
            pkg_deps = [depB], pkg_scripts = [scrPre], pkg_execs = [exE]\<rparr>"

definition pkgN :: pkg where
  "pkgN = \<lparr>pkg_name = ''N'', pkg_version = ''1'', pkg_origin = ''o/N'',
            pkg_deps = [depB, depB2], pkg_scripts = [], pkg_execs = []\<rparr>"

definition pkgP :: pkg where
  "pkgP = \<lparr>pkg_name = ''P'', pkg_version = ''1'', pkg_origin = ''o/P'',
            pkg_deps = [depQ], pkg_scripts = [], pkg_execs = []\<rparr>"

definition pkgQ :: pkg where
  "pkgQ = \<lparr>pkg_name = ''Q'', pkg_version = ''1'', pkg_origin = ''o/P'',
            pkg_deps = [], pkg_scripts = [], pkg_execs = []\<rparr>"

definition arch0 :: archive where
  "arch0 = \<lparr>a_headers = [], a_error = ''io''\<rparr>"

definition aeConf :: archive_entry where
  "aeConf = \<lparr>ae_pathname = ''x.pkgconf'', ae_content = ''dflt''\<rparr>"

definition aeBin :: archive_entry where
  "aeBin = \<lparr>ae_pathname = ''g'', ae_content = ''bin''\<rparr>"

definition open0 :: "string \<Rightarrow> open_result" where
  "open0 path =
     (if path = ''/r/A-1.t'' then OpenOk pkgA arch0 aeConf
      else if path = ''/r/B-1.t'' then OpenEnd pkgB arch0
      else if path = ''/r/D-1.t'' then OpenOk pkgD arch0 aeConf
      else if path = ''/r/E-1.t'' then OpenOk pkgE arch0 aeConf
      else if path = ''/r/G-1.t'' then OpenOk pkgG arch0 aeBin
      else if path = ''/r/H-1.t'' then OpenOk pkgH arch0 aeBin
      else if path = ''/r/K-1.t'' then OpenOk pkgK arch0 aeBin
      else if path = ''/r/M-1.t'' then OpenEnd pkgM arch0
      else if path = ''/r/N-1.t'' then OpenEnd pkgN arch0
      else if path = ''/r/P-1.t'' then OpenEnd pkgP arch0
      else if path = ''/r/Q-1.t'' then OpenEnd pkgQ arch0
      else if path = ''B'' then OpenEnd pkgB arch0
      else OpenFail E_FATAL ''bad archive'')"

definition env0 :: env where
  "env0 = \<lparr>env_is_conf_file = is_conf_file,
            env_extract_ok = (\<lambda>p. True),
            env_open2 = open0,
            env_query_null = (\<lambda>origin. False),
            env_it_fault = (\<lambda>origin. None),
            env_access = (\<lambda>p. p = ''/r/B-1.t'' \<or> p = ''/r/F-1.t'' \<or> p = ''/r/Q-1.t''),
            env_system = (\<lambda>cmd. 0),
            env_register = (\<lambda>p. None)\<rparr>"

definition world0 :: world where
  "world0 = \<lparr>db = [], files = Map.empty, errstr = [], dirbuf = [], trace = []\<rparr>"

text \<open>The descriptor \<open>p'\<close> is the descriptor \<open>p\<close> up to the resolution state of
  its dependencies, which is all that \<open>pkg_resolvdeps\<close> rewrites.\<close>

definition untyped :: "dep \<Rightarrow> dep" where
  "untyped d = d\<lparr>dep_type := PKG_NOTFOUND\<rparr>"

definition same_pkg :: "pkg \<Rightarrow> pkg \<Rightarrow> bool" where
  "same_pkg p p' \<longleftrightarrow>
     pkg_name p' = pkg_name p \<and> pkg_version p' = pkg_version p \<and>
     pkg_origin p' = pkg_origin p \<and> pkg_scripts p' = pkg_scripts p \<and>
     pkg_execs p' = pkg_execs p \<and>
     map untyped (pkg_deps p') = map untyped (pkg_deps p)"

text \<open>The world after \<open>H\<close> has been installed into the empty world.\<close>

definition worldH :: world where
  "worldH = \<lparr>db = [pkgH], files = [''g'' \<mapsto> ''bin''], errstr = [], dirbuf = ''/r'',
     trace = [Open ''/r/H-1.t'', Shell (''set -- H-1'' @ [CHR 0x0A] @ ''p'') 0,
              Shell (''set -- H-1 INSTALL'' @ [CHR 0x0A] @ ''i'') 0,
              Extract ''g'' ''bin'',
              Shell (''set -- H-1 POST-INSTALL'' @ [CHR 0x0A] @ ''i'') 0,
              Shell (''set -- H-1'' @ [CHR 0x0A] @ ''q'') 0,
              Shell ''e'' 0, Finish, Register pkgH]\<rparr>"

text \<open>The world after \<open>B\<close> has been installed into the empty world.\<close>

definition worldB :: world where
  "worldB = \<lparr>db = [pkgB], files = Map.empty, errstr = [], dirbuf = ''/r'',
     trace = [Open ''/r/B-1.t'', Shell (''set -- B-1'' @ [CHR 0x0A] @ ''p'') 0,
              Shell (''set -- B-1 INSTALL'' @ [CHR 0x0A] @ ''i'') 0,
              Shell (''set -- B-1 POST-INSTALL'' @ [CHR 0x0A] @ ''i'') 0,
              Shell (''set -- B-1'' @ [CHR 0x0A] @ ''q'') 0,
              Shell ''e'' 0, Finish, Register pkgB]\<rparr>"

text \<open>The worlds after the transactions of \<open>A\<close> and of \<open>M\<close> in the empty world:
  both have installed \<open>B\<close> first.\<close>

definition worldA :: world where
  "worldA = worldB\<lparr>errstr := ''missing C-1 dependency'',
                    trace := Open ''/r/A-1.t'' # trace worldB @ [Finish]\<rparr>"

definition worldM :: world where
  "worldM = worldB\<lparr>trace := Open ''/r/M-1.t'' # trace worldB
                       @ [Shell (''set -- M-1'' @ [CHR 0x0A] @ ''p'') 0, Shell ''e'' 0, Finish,
                          Register (pkgM\<lparr>pkg_deps := [depB\<lparr>dep_type := PKG_INSTALLED\<rparr>]\<rparr>)],
                    db := [pkgB, pkgM\<lparr>pkg_deps := [depB\<lparr>dep_type := PKG_INSTALLED\<rparr>]\<rparr>]\<rparr>"


text \<open>The commands of the two script phases and of the exec directives, in declared
  order, and the calls of \<open>system\<close> they give rise to.\<close>

definition pre_cmds :: "pkg \<Rightarrow> pkg_script list \<Rightarrow> string list" where
  "pre_cmds p ss =
     concat (map (\<lambda>s. case pkg_script_type s of
                         PKG_SCRIPT_INSTALL \<Rightarrow> [script_cmd p '' INSTALL'' s]
                       | PKG_SCRIPT_PRE_INSTALL \<Rightarrow> [script_cmd p [] s]
                       | _ \<Rightarrow> []) ss)"

definition post_cmds :: "pkg \<Rightarrow> pkg_script list \<Rightarrow> string list" where
  "post_cmds p ss =
     concat (map (\<lambda>s. case pkg_script_type s of
                         PKG_SCRIPT_INSTALL \<Rightarrow> [script_cmd p '' POST-INSTALL'' s]
                       | PKG_SCRIPT_POST_INSTALL \<Rightarrow> [script_cmd p [] s]
                       | _ \<Rightarrow> []) ss)"

definition exec_cmds :: "pkg_exec list \<Rightarrow> string list" where
  "exec_cmds es = map pkg_exec_cmd (filter (\<lambda>e. pkg_exec_type e = PKG_EXEC) es)"

definition shell :: "env \<Rightarrow> string list \<Rightarrow> event list" where
  "shell env cmds = map (\<lambda>c. Shell c (env_system env c)) cmds"

definition is_Extract :: "event \<Rightarrow> bool" where
  "is_Extract e = (case e of Extract path c \<Rightarrow> True | _ \<Rightarrow> False)"

definition is_Register :: "event \<Rightarrow> bool" where
  "is_Register e = (case e of Register p \<Rightarrow> True | _ \<Rightarrow> False)"

text \<open>The extractions of a payload that is extracted to its end: the first entry and
  the entries of the headers that follow, in the order of the archive.\<close>

definition entries_of :: "hdr list \<Rightarrow> archive_entry list" where
  "entries_of hs = concat (map (\<lambda>h. case h of Header e \<Rightarrow> [e] | BadHeader \<Rightarrow> []) hs)"

definition extract_events :: "archive \<Rightarrow> archive_entry option \<Rightarrow> event list" where
  "extract_events a aeo =
     (case aeo of
        None \<Rightarrow> []
      | Some ae \<Rightarrow>
          map (\<lambda>e. Extract (ae_pathname e) (ae_content e)) (ae # entries_of (a_headers a)))"

text \<open>The origins that have a record in the database.\<close>

definition origins :: "world \<Rightarrow> string set" where
  "origins w = set (map pkg_origin (db w))"

text \<open>The world and the value of \<open>retcode\<close> at the label \<open>cleanup\<close>.\<close>

fun world_of :: "at_cleanup \<Rightarrow> world" where
  "world_of (Unopened rc w) = w"
| "world_of (Opened rc p w) = w"

fun retcode_of :: "at_cleanup \<Rightarrow> pkg_error_t" where
  "retcode_of (Unopened rc w) = rc"
| "retcode_of (Opened rc p w) = rc"

text \<open>
  Every step before the registration has completed: the archive was opened, the
  duplicate check found no record, the path has an extension, the loop over the
  dependencies ended with \<open>EPKG_OK\<close>, and the extraction, if there is a payload, ended
  with \<open>EPKG_OK\<close>.
\<close>

definition steps_ok ::
  "(world \<Rightarrow> string \<Rightarrow> (pkg_error_t \<times> world) option) \<Rightarrow> env \<Rightarrow> world \<Rightarrow> string \<Rightarrow> bool" where
  "steps_ok rec env w path =
     (case opened (env_open2 env path) of
        None \<Rightarrow> False
      | Some (p0, a, aeo) \<Rightarrow>
          lookup env w (pkg_origin p0) = Some EPKG_END \<and>
          (case strrchr path (CHR ''.'') of
             None \<Rightarrow> False
           | Some ext \<Rightarrow>
               (case deps_loop rec env ext (pkg_resolvdeps p0 w)
                       (w\<lparr>trace := trace w @ [Open path], dirbuf := dirname path\<rparr>) 0 of
                  None \<Rightarrow> False
                | Some (rc, p, w2) \<Rightarrow>
                    rc = EPKG_OK \<and>
                    (case aeo of
                       None \<Rightarrow> True
                     | Some ae \<Rightarrow>
                         fst (do_extract env a ae
                                (pre_install_scripts env p (pkg_scripts p) w2)) = EPKG_OK))))"

text \<open>
  The course of the loop over the dependencies.  \<open>reaches rec env ext (p, w, i) (p', w', k)\<close>:
  the loop that stands before \<open>deps[i]\<close> with the package \<open>p\<close> in the world \<open>w\<close>
  comes to stand before \<open>deps[k]\<close> with \<open>p'\<close> in \<open>w'\<close>.  It passes a dependency that is
  not of type \<open>PKG_NOTFOUND\<close>; it passes one that is when the candidate file exists and
  the recursive call on it returns \<open>EPKG_OK\<close>, and then goes on in the world this call
  has left, with the dependencies resolved again.
\<close>

inductive reaches ::
  "(world \<Rightarrow> string \<Rightarrow> (pkg_error_t \<times> world) option) \<Rightarrow> env \<Rightarrow> string
     \<Rightarrow> pkg \<times> world \<times> nat \<Rightarrow> pkg \<times> world \<times> nat \<Rightarrow> bool"
  for rec :: "world \<Rightarrow> string \<Rightarrow> (pkg_error_t \<times> world) option" and env :: env and ext :: string
where
  here: "reaches rec env ext s s"
| found:
    "i < length (pkg_deps p) \<Longrightarrow> dep_type (pkg_deps p ! i) \<noteq> PKG_NOTFOUND \<Longrightarrow>
     reaches rec env ext (p, w, Suc i) s \<Longrightarrow>
     reaches rec env ext (p, w, i) s"
| installed:
    "i < length (pkg_deps p) \<Longrightarrow> dep_type (pkg_deps p ! i) = PKG_NOTFOUND \<Longrightarrow>
     env_access env (dep_path (dirbuf w) (pkg_deps p ! i) ext) \<Longrightarrow>
     rec w (dep_path (dirbuf w) (pkg_deps p ! i) ext) = Some (EPKG_OK, w1) \<Longrightarrow>
     reaches rec env ext (pkg_resolvdeps p w1, w1, Suc i) s \<Longrightarrow>
     reaches rec env ext (p, w, i) s"

text \<open>Where the loop starts: before \<open>deps[0]\<close>, after \<open>pkg_resolvdeps\<close>, the archive
  opened and \<open>dirname(path)\<close> computed.\<close>

definition loop_start :: "pkg \<Rightarrow> world \<Rightarrow> string \<Rightarrow> pkg \<times> world \<times> nat" where
  "loop_start p0 w path =
     (pkg_resolvdeps p0 w, w\<lparr>trace := trace w @ [Open path], dirbuf := dirname path\<rparr>, 0)"

text \<open>
  How the loop ends: at the end of the dependencies with \<open>EPKG_OK\<close>; at a dependency
  that is not found and has no candidate, with \<open>EPKG_DEPENDENCY\<close>; or at one whose
  candidate the recursive call has not installed, with \<open>EPKG_FATAL\<close>.
\<close>

definition loop_end ::
  "(world \<Rightarrow> string \<Rightarrow> (pkg_error_t \<times> world) option) \<Rightarrow> env \<Rightarrow> string
     \<Rightarrow> pkg \<Rightarrow> world \<Rightarrow> nat \<Rightarrow> pkg_error_t \<times> pkg \<times> world \<Rightarrow> bool" where
  "loop_end rec env ext pk wk k res \<longleftrightarrow>
     (length (pkg_deps pk) \<le> k \<and> res = (EPKG_OK, pk, wk)) \<or>
     (k < length (pkg_deps pk) \<and> dep_type (pkg_deps pk ! k) = PKG_NOTFOUND \<and>
      \<not> env_access env (dep_path (dirbuf wk) (pkg_deps pk ! k) ext) \<and>
      res = (EPKG_DEPENDENCY, pk,
             wk\<lparr>errstr := ''missing '' @ dep_name (pkg_deps pk ! k) @ ''-''
                             @ dep_version (pkg_deps pk ! k) @ '' dependency''\<rparr>)) \<or>
     (k < length (pkg_deps pk) \<and> dep_type (pkg_deps pk ! k) = PKG_NOTFOUND \<and>
      env_access env (dep_path (dirbuf wk) (pkg_deps pk ! k) ext) \<and>
      (\<exists>rc1 w1. rec wk (dep_path (dirbuf wk) (pkg_deps pk ! k) ext) = Some (rc1, w1) \<and>
         rc1 \<noteq> EPKG_OK \<and>
         res = (EPKG_FATAL, pk,
                w1\<lparr>errstr := ''error while installing ''
                                @ dep_path (dirbuf wk) (pkg_deps pk ! k) ext
                                @ '' (dependency): '' @ errstr w1\<rparr>)))"

text \<open>What follows the loop: the label \<open>cleanup\<close> at once when \<open>retcode\<close> is not
  \<open>EPKG_OK\<close>, and the steps from the pre-install scripts on otherwise.\<close>

definition after_loop ::
  "env \<Rightarrow> archive \<Rightarrow> archive_entry option \<Rightarrow> pkg_error_t \<times> pkg \<times> world \<Rightarrow> at_cleanup" where
  "after_loop env a aeo res =
     (case res of
        (rc, p', w') \<Rightarrow>
          if rc \<noteq> EPKG_OK then Opened rc p' w' else install_steps env p' a aeo w')"

text \<open>\<open>nested_only rec u v\<close>: the world \<open>v\<close> arises from \<open>u\<close> through recursive calls
  that return, one after the other, and through nothing else.\<close>

definition nested_step ::
  "(world \<Rightarrow> string \<Rightarrow> (pkg_error_t \<times> world) option) \<Rightarrow> world \<Rightarrow> world \<Rightarrow> bool" where
  "nested_step rec u v \<longleftrightarrow> (\<exists>dp rc. rec u dp = Some (rc, v))"

definition nested_only ::
  "(world \<Rightarrow> string \<Rightarrow> (pkg_error_t \<times> world) option) \<Rightarrow> world \<Rightarrow> world \<Rightarrow> bool" where
  "nested_only rec u v \<longleftrightarrow> rtranclp (nested_step rec) u v"

text \<open>Two worlds that differ at most in the trace of collaborator calls; two
  environments that differ at most in the exit statuses of \<open>system\<close>; and the same for
  the states at the label \<open>cleanup\<close> and for the recursive calls.\<close>

definition agree :: "world \<Rightarrow> world \<Rightarrow> bool" where
  "agree w v \<longleftrightarrow>
     db w = db v \<and> files w = files v \<and> errstr w = errstr v \<and> dirbuf w = dirbuf v"

definition env_agree :: "env \<Rightarrow> env \<Rightarrow> bool" where
  "env_agree e1 e2 \<longleftrightarrow>
     env_is_conf_file e1 = env_is_conf_file e2 \<and> env_extract_ok e1 = env_extract_ok e2 \<and>
     env_open2 e1 = env_open2 e2 \<and> env_query_null e1 = env_query_null e2 \<and>
     env_it_fault e1 = env_it_fault e2 \<and> env_access e1 = env_access e2 \<and>
     env_register e1 = env_register e2"

fun agree_st :: "at_cleanup \<Rightarrow> at_cleanup \<Rightarrow> bool" where
  "agree_st (Unopened rc w) (Unopened rc' v) \<longleftrightarrow> rc = rc' \<and> agree w v"
| "agree_st (Opened rc p w) (Opened rc' p' v) \<longleftrightarrow> rc = rc' \<and> p = p' \<and> agree w v"
| "agree_st st st' \<longleftrightarrow> False"

definition agree_rec ::
  "(world \<Rightarrow> string \<Rightarrow> (pkg_error_t \<times> world) option)
     \<Rightarrow> (world \<Rightarrow> string \<Rightarrow> (pkg_error_t \<times> world) option) \<Rightarrow> bool" where
  "agree_rec r1 r2 \<longleftrightarrow>
     (\<forall>w v dp. agree w v \<longrightarrow>
        rel_option (\<lambda>(rc, w') (rc', v'). rc = rc' \<and> agree w' v') (r1 w dp) (r2 v dp))"

section \<open>Basic facts\<close>

lemma pkg_add_Suc:
  "pkg_add (Suc n) env w (Some path) pkg_p =
     map_option (cleanup env pkg_p) (pkg_add_body (nested_add n env) env w path)"
  by (simp add: nested_add_def[abs_def])

lemma epkg_not_OK [simp]: "epkg c \<noteq> EPKG_OK" "epkg c \<noteq> EPKG_END"
  by (cases c; simp)+

lemma length_deps_resolvdeps [simp]:
  "length (pkg_deps (pkg_resolvdeps p w)) = length (pkg_deps p)"
  by (simp add: pkg_resolvdeps_def)

lemma pkg_add_body_opened:
  "opened (env_open2 env path) = Some (p, a, aeo) \<Longrightarrow>
   pkg_add_body rec env w path =
     after_open rec env path p a aeo (w\<lparr>trace := trace w @ [Open path]\<rparr>)"
  by (cases "env_open2 env path") (auto simp: pkg_add_body_def)

lemma pkg_add_body_unopened:
  "opened (env_open2 env path) = None \<Longrightarrow>
   \<exists>c msg. env_open2 env path = OpenFail c msg \<and>
     pkg_add_body rec env w path =
       Some (Unopened (epkg c) (w\<lparr>errstr := msg, trace := trace w @ [Open path]\<rparr>))"
  by (cases "env_open2 env path") (auto simp: pkg_add_body_def)

lemma lookup_frame [simp]:
  "lookup env (w\<lparr>trace := t\<rparr>) origin = lookup env w origin"
  "lookup env (w\<lparr>dirbuf := b\<rparr>) origin = lookup env w origin"
  "lookup env (w\<lparr>errstr := e\<rparr>) origin = lookup env w origin"
  "lookup env (w\<lparr>files := f\<rparr>) origin = lookup env w origin"
  by (simp_all add: lookup_def pkgdb_query_def)

text \<open>The duplicate check and the extension check, read through \<open>lookup\<close>.\<close>

lemma after_open_lookup:
  "after_open rec env path p a aeo w =
     (case lookup env w (pkg_origin p) of
        None \<Rightarrow> Some (Opened EPKG_FATAL p w)
      | Some ret \<Rightarrow>
          if ret = EPKG_OK
          then Some (Opened EPKG_INSTALLED p (w\<lparr>errstr := ''package already installed''\<rparr>))
          else if ret \<noteq> EPKG_END then Some (Opened ret p w)
          else
            (case strrchr path (CHR ''.'') of
               None \<Rightarrow>
                 Some (Opened EPKG_FATAL p
                         (w\<lparr>dirbuf := dirname path, errstr := path @ '' has no extension''\<rparr>))
             | Some ext \<Rightarrow>
                 (case deps_loop rec env ext (pkg_resolvdeps p w)
                         (w\<lparr>dirbuf := dirname path\<rparr>) 0 of
                    None \<Rightarrow> None
                  | Some (rc, p', w') \<Rightarrow>
                      if rc \<noteq> EPKG_OK then Some (Opened rc p' w')
                      else Some (install_steps env p' a aeo w'))))"
  by (simp add: after_open_def lookup_def pkg_error_set_def split: option.splits)

lemma strrchr_None_iff: "strrchr s c = None \<longleftrightarrow> c \<notin> set s"
  by (induction s) (auto split: option.splits)

declare pkg_add.simps(3) [simp del]

lemma same_pkg_refl [simp]: "same_pkg p p"
  by (simp add: same_pkg_def)

lemma untyped_resolve_dep [simp]: "untyped (resolve_dep w d) = untyped d"
  by (simp add: untyped_def resolve_dep_def)

lemma same_pkg_resolvdeps [simp]: "same_pkg p (pkg_resolvdeps p w)"
  by (simp add: same_pkg_def pkg_resolvdeps_def comp_def)

lemma same_pkg_fields:
  "same_pkg p p' \<Longrightarrow> pkg_name p' = pkg_name p"
  "same_pkg p p' \<Longrightarrow> pkg_version p' = pkg_version p"
  "same_pkg p p' \<Longrightarrow> pkg_origin p' = pkg_origin p"
  "same_pkg p p' \<Longrightarrow> pkg_scripts p' = pkg_scripts p"
  "same_pkg p p' \<Longrightarrow> pkg_execs p' = pkg_execs p"
  "same_pkg p p' \<Longrightarrow> length (pkg_deps p') = length (pkg_deps p)"
  by (auto simp: same_pkg_def dest: map_eq_imp_length_eq)

lemma same_pkg_trans: "same_pkg p q \<Longrightarrow> same_pkg q r \<Longrightarrow> same_pkg p r"
  by (simp add: same_pkg_def)

lemma deps_loop_same_pkg:
  "deps_loop rec env e p w i = Some (rc, p', w') \<Longrightarrow> same_pkg p p'"
proof (induction rec env e p w i rule: deps_loop.induct)
  case (1 rec env e p w i)
  from "1.prems" show ?case
    apply (subst (asm) deps_loop.simps)
    apply (auto split: if_splits option.splits prod.splits simp: pkg_error_set_def
              dest!: "1.IH"(1)[rotated -1] "1.IH"(2)[rotated -1])
    apply (auto intro: same_pkg_trans[OF same_pkg_resolvdeps])
    done
qed

lemma install_steps_shape:
  "\<exists>rc ws. install_steps env p a aeo w = Opened rc p ws"
  by (auto simp: install_steps_def Let_def split: prod.splits option.splits)

lemma after_open_shape:
  assumes "after_open rec env path p a aeo w = Some st"
  shows "\<exists>rc p' ws. st = Opened rc p' ws \<and> same_pkg p p'"
proof (cases "lookup env w (pkg_origin p) = Some EPKG_END \<and> strrchr path (CHR ''.'') \<noteq> None")
  case False
  with assms show ?thesis
    by (auto simp: after_open_lookup split: option.splits if_splits)
next
  case True
  then obtain ext where ext: "strrchr path (CHR ''.'') = Some ext" by auto
  with True assms obtain rc p' w' where
    dl: "deps_loop rec env ext (pkg_resolvdeps p w) (w\<lparr>dirbuf := dirname path\<rparr>) 0
           = Some (rc, p', w')"
    and st: "st = (if rc \<noteq> EPKG_OK then Opened rc p' w' else install_steps env p' a aeo w')"
    by (auto simp: after_open_lookup split: option.splits if_splits)
  have "same_pkg p p'"
    using deps_loop_same_pkg[OF dl] same_pkg_resolvdeps same_pkg_trans by blast
  with st install_steps_shape[of env p' a aeo w'] show ?thesis
    by (cases "rc = EPKG_OK") auto
qed

lemma cleanup_Opened_trace:
  "cleanup env pkg_p (Opened r p ws) = (rc, out, w') \<Longrightarrow>
     (r = EPKG_OK \<longrightarrow> trace w' = trace ws @ [Finish, Register p]) \<and>
     (r \<noteq> EPKG_OK \<longrightarrow> trace w' = trace ws @ [Finish] \<and> rc = r \<and> db w' = db ws) \<and>
     (rc = EPKG_OK \<longrightarrow> r = EPKG_OK \<and> db w' = db ws @ [p]) \<and>
     out = (case pkg_p of None \<Rightarrow> None | Some c \<Rightarrow> Some (if rc = EPKG_OK then Some p else None))"
  by (auto simp: pkgdb_register_pkg_def Let_def split: if_splits option.splits prod.splits)

subsection \<open>What the steps change\<close>

lemma shell_simps [simp]:
  "shell env [] = []" "shell env (c # cs) = Shell c (env_system env c) # shell env cs"
  "shell env (xs @ ys) = shell env xs @ shell env ys"
  by (simp_all add: shell_def)

lemma pre_install_scripts_trace:
  "pre_install_scripts env p ss w = w\<lparr>trace := trace w @ shell env (pre_cmds p ss)\<rparr>"
proof (induction ss arbitrary: w)
  case Nil
  show ?case by (simp add: pre_cmds_def)
next
  case (Cons s ss)
  have *: "pre_cmds p (s # ss) = pre_cmds p [s] @ pre_cmds p ss"
    by (simp add: pre_cmds_def)
  show ?case
    by (cases "pkg_script_type s") (simp_all add: Cons.IH * system_def, simp_all add: pre_cmds_def)
qed

lemma post_install_scripts_trace:
  "post_install_scripts env p ss w = w\<lparr>trace := trace w @ shell env (post_cmds p ss)\<rparr>"
proof (induction ss arbitrary: w)
  case Nil
  show ?case by (simp add: post_cmds_def)
next
  case (Cons s ss)
  have *: "post_cmds p (s # ss) = post_cmds p [s] @ post_cmds p ss"
    by (simp add: post_cmds_def)
  show ?case
    by (cases "pkg_script_type s") (simp_all add: Cons.IH * system_def, simp_all add: post_cmds_def)
qed

lemma run_execs_trace:
  "run_execs env es w = w\<lparr>trace := trace w @ shell env (exec_cmds es)\<rparr>"
  by (induction es arbitrary: w) (simp_all add: exec_cmds_def system_def)

lemma lstat_not_ENOENT: "lstat w path \<noteq> ENOENT"
  by (simp add: lstat_def ENOENT_def)

lemma archive_read_extract_frame:
  "archive_read_extract env ae w = (r, w') \<Longrightarrow>
     db w' = db w \<and> errstr w' = errstr w \<and>
     (\<exists>t. trace w' = trace w @ t \<and> (\<forall>e \<in> set t. is_Extract e))"
  by (auto simp: archive_read_extract_def is_Extract_def split: if_splits)

lemma do_extract_loop_unfold:
  "do_extract_loop env aerr ae hs ret w =
     (case archive_read_extract env ae w of
        (r1, w1) \<Rightarrow>
          if r1 \<noteq> ARCHIVE_OK then (EPKG_FATAL, ret, w1\<lparr>errstr := aerr\<rparr>)
          else
            (case hs of
               [] \<Rightarrow> (EPKG_OK, ARCHIVE_EOF, w1)
             | BadHeader # rest \<Rightarrow> (EPKG_OK, ARCHIVE_FAILED, w1)
             | Header ae' # rest \<Rightarrow> do_extract_loop env aerr ae' rest ARCHIVE_OK w1))"
  by (subst do_extract_loop.simps)
     (simp add: lstat_not_ENOENT pkg_error_set_def split: prod.splits option.splits)

declare do_extract_loop.simps [simp del]

lemma do_extract_loop_frame:
  "do_extract_loop env aerr ae hs ret w = (rc, ret', w') \<Longrightarrow>
     db w' = db w \<and> (\<exists>t. trace w' = trace w @ t \<and> (\<forall>e \<in> set t. is_Extract e))"
proof (induction hs arbitrary: ae ret w)
  case Nil
  obtain r1 w1 where e1: "archive_read_extract env ae w = (r1, w1)" by force
  from Nil archive_read_extract_frame[OF e1] show ?case
    by (subst (asm) do_extract_loop_unfold) (auto simp: e1 split: if_splits)
next
  case (Cons h rest)
  obtain r1 w1 where e1: "archive_read_extract env ae w = (r1, w1)" by force
  note f1 = archive_read_extract_frame[OF e1]
  show ?case
  proof (cases "r1 = ARCHIVE_OK \<and> (\<exists>ae'. h = Header ae')")
    case False
    with Cons.prems f1 show ?thesis
      by (subst (asm) do_extract_loop_unfold) (cases h; auto simp: e1 split: if_splits)
  next
    case True
    then obtain ae' where h: "h = Header ae'" and r1: "r1 = ARCHIVE_OK" by blast
    from Cons.prems have "do_extract_loop env aerr ae' rest ARCHIVE_OK w1 = (rc, ret', w')"
      by (subst (asm) do_extract_loop_unfold) (simp add: e1 h r1)
    from Cons.IH[OF this] f1 show ?thesis by auto
  qed
qed

lemma do_extract_frame:
  "do_extract env a ae w = (rc, w') \<Longrightarrow>
     db w' = db w \<and> (\<exists>t. trace w' = trace w @ t \<and> (\<forall>e \<in> set t. is_Extract e))"
proof -
  assume a: "do_extract env a ae w = (rc, w')"
  obtain r ret w1 where l: "do_extract_loop env (a_error a) ae (a_headers a) ARCHIVE_OK w = (r, ret, w1)"
    using prod_cases3 by blast
  from a l do_extract_loop_frame[OF l] show ?thesis
    by (auto simp: do_extract_def pkg_error_set_def split: if_splits)
qed

subsection \<open>The loop over the dependencies\<close>

lemma deps_loop_done:
  "length (pkg_deps p) \<le> i \<Longrightarrow> deps_loop rec env e p w i = Some (EPKG_OK, p, w)"
  by (subst deps_loop.simps) simp

lemma deps_loop_skip1:
  "i < length (pkg_deps p) \<Longrightarrow> dep_type (pkg_deps p ! i) \<noteq> PKG_NOTFOUND \<Longrightarrow>
   deps_loop rec env e p w i = deps_loop rec env e p w (Suc i)"
  by (subst deps_loop.simps) simp


lemma deps_loop_missing:
  "i < length (pkg_deps p) \<Longrightarrow> dep_type (pkg_deps p ! i) = PKG_NOTFOUND \<Longrightarrow>
   \<not> env_access env (dep_path (dirbuf w) (pkg_deps p ! i) e) \<Longrightarrow>
   deps_loop rec env e p w i =
     Some (EPKG_DEPENDENCY, p,
           w\<lparr>errstr := ''missing '' @ dep_name (pkg_deps p ! i) @ ''-''
                          @ dep_version (pkg_deps p ! i) @ '' dependency''\<rparr>)"
  by (subst deps_loop.simps) (simp add: pkg_error_set_def)

lemma deps_loop_nested:
  "i < length (pkg_deps p) \<Longrightarrow> dep_type (pkg_deps p ! i) = PKG_NOTFOUND \<Longrightarrow>
   env_access env (dep_path (dirbuf w) (pkg_deps p ! i) e) \<Longrightarrow>
   rec w (dep_path (dirbuf w) (pkg_deps p ! i) e) = Some (rc1, w1) \<Longrightarrow>
   deps_loop rec env e p w i =
     (if rc1 = EPKG_OK then deps_loop rec env e (pkg_resolvdeps p w1) w1 (Suc i)
      else Some (EPKG_FATAL, p,
                 w1\<lparr>errstr := ''error while installing '' @ dep_path (dirbuf w) (pkg_deps p ! i) e
                                  @ '' (dependency): '' @ errstr w1\<rparr>))"
  by (subst deps_loop.simps) (simp add: pkg_error_set_def)

lemma resolvdeps_nth:
  "j < length (pkg_deps p) \<Longrightarrow>
   pkg_deps (pkg_resolvdeps p w) ! j = resolve_dep w (pkg_deps p ! j)"
  by (simp add: pkg_resolvdeps_def)

lemma resolve_dep_simps [simp]:
  "dep_name (resolve_dep w d) = dep_name d"
  "dep_version (resolve_dep w d) = dep_version d"
  "dep_origin (resolve_dep w d) = dep_origin d"
  "dep_type (resolve_dep w d) = PKG_NOTFOUND \<longleftrightarrow> dep_origin d \<notin> origins w"
  "dep_path b (resolve_dep w d) e = dep_path b d e"
  by (simp_all add: resolve_dep_def origins_def dep_path_def)

lemma resolvdeps_twice [simp]:
  "pkg_resolvdeps (pkg_resolvdeps p w) w' = pkg_resolvdeps p w'"
  by (simp add: pkg_resolvdeps_def resolve_dep_def)

lemma origins_frame [simp]:
  "origins (w\<lparr>trace := t\<rparr>) = origins w"
  "origins (w\<lparr>dirbuf := b\<rparr>) = origins w"
  "origins (w\<lparr>errstr := s\<rparr>) = origins w"
  "origins (w\<lparr>files := f\<rparr>) = origins w"
  by (simp_all add: origins_def)

lemma resolvdeps_frame [simp]:
  "pkg_resolvdeps p (w\<lparr>trace := t\<rparr>) = pkg_resolvdeps p w"
  "pkg_resolvdeps p (w\<lparr>dirbuf := b\<rparr>) = pkg_resolvdeps p w"
  "pkg_resolvdeps p (w\<lparr>errstr := s\<rparr>) = pkg_resolvdeps p w"
  by (simp_all add: pkg_resolvdeps_def resolve_dep_def)

subsection \<open>The steps after the dependencies\<close>

lemma install_steps_None:
  "install_steps env p a None w =
     Opened EPKG_OK p
       (w\<lparr>trace := trace w @ shell env (pre_cmds p (pkg_scripts p))
                       @ shell env (post_cmds p (pkg_scripts p))
                       @ shell env (exec_cmds (pkg_execs p))\<rparr>)"
  by (simp add: install_steps_def pre_install_scripts_trace post_install_scripts_trace
        run_execs_trace)

lemma install_steps_Some:
  "do_extract env a ae (w\<lparr>trace := trace w @ shell env (pre_cmds p (pkg_scripts p))\<rparr>) = (rc, w2) \<Longrightarrow>
   install_steps env p a (Some ae) w =
     (if rc \<noteq> EPKG_OK then Opened rc p w2
      else Opened EPKG_OK p
             (w2\<lparr>trace := trace w2 @ shell env (post_cmds p (pkg_scripts p))
                              @ shell env (exec_cmds (pkg_execs p))\<rparr>))"
  by (simp add: install_steps_def pre_install_scripts_trace post_install_scripts_trace
        run_execs_trace)

lemma same_pkg_script_cmd: "same_pkg p0 p \<Longrightarrow> script_cmd p = script_cmd p0"
  by (simp add: fun_eq_iff script_cmd_def same_pkg_def)

lemma same_pkg_cmds:
  assumes "same_pkg p0 p"
  shows "pre_cmds p (pkg_scripts p) = pre_cmds p0 (pkg_scripts p0)"
    and "post_cmds p (pkg_scripts p) = post_cmds p0 (pkg_scripts p0)"
    and "exec_cmds (pkg_execs p) = exec_cmds (pkg_execs p0)"
proof -
  note e = same_pkg_script_cmd[OF assms]
  from assms have s: "pkg_scripts p = pkg_scripts p0" "pkg_execs p = pkg_execs p0"
    by (simp_all add: same_pkg_def)
  show "pre_cmds p (pkg_scripts p) = pre_cmds p0 (pkg_scripts p0)"
    unfolding pre_cmds_def e s ..
  show "post_cmds p (pkg_scripts p) = post_cmds p0 (pkg_scripts p0)"
    unfolding post_cmds_def e s ..
  show "exec_cmds (pkg_execs p) = exec_cmds (pkg_execs p0)"
    unfolding s ..
qed






lemma retcode_install_steps:
  "retcode_of (install_steps env p a aeo w) =
     (case aeo of None \<Rightarrow> EPKG_OK
      | Some ae \<Rightarrow> fst (do_extract env a ae (pre_install_scripts env p (pkg_scripts p) w)))"
  by (auto simp: install_steps_def Let_def split: option.splits prod.splits)


lemma after_open_steps_ok:
  assumes op: "opened (env_open2 env path) = Some (p0, a, aeo)"
      and st: "after_open rec env path p0 a aeo (w\<lparr>trace := trace w @ [Open path]\<rparr>) = Some st"
  shows "retcode_of st = EPKG_OK \<longleftrightarrow> steps_ok rec env w path"
  using st
  by (auto simp: steps_ok_def op after_open_lookup retcode_install_steps
           split: option.splits if_splits)

text \<open>A payload that is extracted without error is extracted to its end, entry by
  entry.\<close>

lemma do_extract_loop_Nil:
  "do_extract_loop env aerr ae [] ret w =
     (case archive_read_extract env ae w of
        (r1, w1) \<Rightarrow>
          if r1 \<noteq> ARCHIVE_OK then (EPKG_FATAL, ret, w1\<lparr>errstr := aerr\<rparr>)
          else (EPKG_OK, ARCHIVE_EOF, w1))"
  by (subst do_extract_loop_unfold) (simp split: prod.splits)

lemma do_extract_loop_Cons:
  "do_extract_loop env aerr ae (h # rest) ret w =
     (case archive_read_extract env ae w of
        (r1, w1) \<Rightarrow>
          if r1 \<noteq> ARCHIVE_OK then (EPKG_FATAL, ret, w1\<lparr>errstr := aerr\<rparr>)
          else
            (case h of
               BadHeader \<Rightarrow> (EPKG_OK, ARCHIVE_FAILED, w1)
             | Header ae' \<Rightarrow> do_extract_loop env aerr ae' rest ARCHIVE_OK w1))"
  by (subst do_extract_loop_unfold) (simp split: prod.splits hdr.splits)

lemma do_extract_loop_EOF:
  "do_extract_loop env aerr ae hs ret w = (rc, ARCHIVE_EOF, w') \<Longrightarrow> ret \<noteq> ARCHIVE_EOF \<Longrightarrow>
     rc = EPKG_OK \<and>
     trace w' = trace w @ map (\<lambda>e. Extract (ae_pathname e) (ae_content e)) (ae # entries_of hs)"
proof (induction hs arbitrary: ae ret w)
  case Nil
  then show ?case
    by (auto simp: do_extract_loop_Nil archive_read_extract_def entries_of_def
             split: if_splits)
next
  case (Cons h rest)
  show ?case
  proof (cases h)
    case BadHeader
    with Cons.prems show ?thesis
      by (auto simp: do_extract_loop_Cons archive_read_extract_def split: if_splits)
  next
    case (Header ae')
    show ?thesis
    proof (cases "env_extract_ok env (ae_pathname ae)")
      case False
      with Cons.prems show ?thesis
        by (auto simp: do_extract_loop_Cons archive_read_extract_def)
    next
      case True
      let ?w1 = "w\<lparr>files := (files w)(ae_pathname ae \<mapsto> ae_content ae),
                    trace := trace w @ [Extract (ae_pathname ae) (ae_content ae)]\<rparr>"
      from Cons.prems(1) True Header have
        "do_extract_loop env aerr ae' rest ARCHIVE_OK ?w1 = (rc, ARCHIVE_EOF, w')"
        by (simp add: do_extract_loop_Cons archive_read_extract_def)
      from Cons.IH[OF this] Header show ?thesis
        by (simp add: entries_of_def)
    qed
  qed
qed

lemma do_extract_OK_trace:
  assumes "do_extract env a ae w = (EPKG_OK, w')"
  shows "trace w' = trace w @ extract_events a (Some ae)"
proof -
  obtain r ret w1 where
    l: "do_extract_loop env (a_error a) ae (a_headers a) ARCHIVE_OK w = (r, ret, w1)"
    using prod_cases3 by blast
  with assms have "ret = ARCHIVE_EOF" "w1 = w'"
    by (auto simp: do_extract_def pkg_error_set_def split: if_splits)
  with l do_extract_loop_EOF[of env "a_error a" ae "a_headers a" ARCHIVE_OK w r w']
  show ?thesis by (simp add: extract_events_def)
qed

text \<open>What the last steps add to the trace when they succeed, and that they leave the
  database alone.\<close>

lemma install_steps_OK:
  assumes "install_steps env p a aeo w = st" and "retcode_of st = EPKG_OK"
  shows "st = Opened EPKG_OK p (world_of st) \<and> db (world_of st) = db w \<and>
         trace (world_of st) =
           trace w @ shell env (pre_cmds p (pkg_scripts p)) @ extract_events a aeo
             @ shell env (post_cmds p (pkg_scripts p)) @ shell env (exec_cmds (pkg_execs p))"
proof (cases aeo)
  case None
  with assms show ?thesis
    by (auto simp: install_steps_None extract_events_def)
next
  case (Some ae)
  let ?w1 = "w\<lparr>trace := trace w @ shell env (pre_cmds p (pkg_scripts p))\<rparr>"
  obtain rc w2 where e: "do_extract env a ae ?w1 = (rc, w2)" by force
  from assms Some have rc: "rc = EPKG_OK"
    by (auto simp: install_steps_Some[OF e] split: if_splits)
  from do_extract_frame[OF e] have d: "db w2 = db w" by simp
  from do_extract_OK_trace[OF e[unfolded rc]] have
    t: "trace w2 = trace ?w1 @ extract_events a (Some ae)" .
  from assms Some rc d t show ?thesis
    by (auto simp: install_steps_Some[OF e])
qed

lemma install_steps_trace:
  "install_steps env p a aeo w = st \<Longrightarrow>
     db (world_of st) = db w \<and>
     (\<exists>t. trace (world_of st) = trace w @ t \<and> (\<forall>e \<in> set t. \<not> is_Register e))"
proof -
  assume a: "install_steps env p a aeo w = st"
  have sh: "\<forall>e \<in> set (shell env cs). \<not> is_Register e" for cs
    by (auto simp: shell_def is_Register_def)
  have ex: "\<not> is_Register e" if "is_Extract e" for e
    using that by (cases e) (auto simp: is_Extract_def is_Register_def)
  show ?thesis
  proof (cases aeo)
    case None
    with a sh show ?thesis
      by (auto simp: install_steps_None intro!: exI[of _ "shell env (pre_cmds p (pkg_scripts p))
              @ shell env (post_cmds p (pkg_scripts p)) @ shell env (exec_cmds (pkg_execs p))"])
  next
    case (Some ae)
    let ?pre = "shell env (pre_cmds p (pkg_scripts p))"
    let ?w1 = "w\<lparr>trace := trace w @ ?pre\<rparr>"
    obtain rc w2 where e: "do_extract env a ae ?w1 = (rc, w2)" by force
    from do_extract_frame[OF e] obtain t where
      d: "db w2 = db w" and t: "trace w2 = trace w @ ?pre @ t" "\<forall>e \<in> set t. is_Extract e"
      by auto
    show ?thesis
    proof (cases "rc = EPKG_OK")
      case False
      with a Some d t sh ex show ?thesis
        by (auto simp: install_steps_Some[OF e] intro!: exI[of _ "?pre @ t"])
    next
      case True
      with a Some d t sh ex show ?thesis
        by (auto simp: install_steps_Some[OF e]
              intro!: exI[of _ "?pre @ t @ shell env (post_cmds p (pkg_scripts p))
                                 @ shell env (exec_cmds (pkg_execs p))"])
    qed
  qed
qed

subsection \<open>The course of the loop over the dependencies\<close>

lemma reaches_deps_loop_gen:
  "reaches rec env ext s s' \<Longrightarrow>
   deps_loop rec env ext (fst s) (fst (snd s)) (snd (snd s))
     = deps_loop rec env ext (fst s') (fst (snd s')) (snd (snd s'))"
proof (induction rule: reaches.induct)
  case (here s)
  show ?case ..
next
  case (found i p w s)
  then show ?case by (simp add: deps_loop_skip1)
next
  case (installed i p w w1 s)
  from deps_loop_nested[where rec=rec and w=w and e=ext, OF installed.hyps(1-4)] installed.IH
  show ?case by simp
qed

lemma reaches_deps_loop:
  "reaches rec env ext (p, w, i) (p', w', k) \<Longrightarrow>
   deps_loop rec env ext p w i = deps_loop rec env ext p' w' k"
  using reaches_deps_loop_gen[of rec env ext "(p, w, i)" "(p', w', k)"] by simp

lemma reaches_facts_gen:
  "reaches rec env ext s s' \<Longrightarrow>
   same_pkg (fst s) (fst s') \<and> snd (snd s) \<le> snd (snd s') \<and>
   nested_only rec (fst (snd s)) (fst (snd s')) \<and>
   (fst s = pkg_resolvdeps (fst s) (fst (snd s))
      \<longrightarrow> fst s' = pkg_resolvdeps (fst s) (fst (snd s')))"
proof (induction rule: reaches.induct)
  case (here s)
  show ?case by (simp add: nested_only_def)
next
  case (found i p w s)
  then show ?case by auto
next
  case (installed i p w w1 s)
  have "nested_step rec w w1"
    using installed.hyps(4) by (auto simp: nested_step_def)
  with installed.IH have "nested_only rec w (fst (snd s))"
    by (auto simp: nested_only_def intro: converse_rtranclp_into_rtranclp)
  with installed.IH show ?case
    by (auto intro: same_pkg_trans[OF same_pkg_resolvdeps])
qed

lemma reaches_facts:
  assumes "reaches rec env ext (p, w, i) (p', w', k)"
  shows "same_pkg p p'" and "i \<le> k" and "nested_only rec w w'"
    and "p = pkg_resolvdeps p0 w \<Longrightarrow> p' = pkg_resolvdeps p0 w'"
  using reaches_facts_gen[OF assms] by simp_all

lemma reaches_trans_gen:
  "reaches rec env ext s s' \<Longrightarrow> reaches rec env ext s' s'' \<Longrightarrow> reaches rec env ext s s''"
  by (induction rule: reaches.induct) (auto intro: reaches.intros)

lemma reaches_found:
  "reaches rec env ext s (p, w, i) \<Longrightarrow> i < length (pkg_deps p) \<Longrightarrow>
   dep_type (pkg_deps p ! i) \<noteq> PKG_NOTFOUND \<Longrightarrow> reaches rec env ext s (p, w, Suc i)"
  by (erule reaches_trans_gen) (auto intro: reaches.intros)

lemma reaches_installed:
  "reaches rec env ext s (p, w, i) \<Longrightarrow> i < length (pkg_deps p) \<Longrightarrow>
   dep_type (pkg_deps p ! i) = PKG_NOTFOUND \<Longrightarrow>
   env_access env (dep_path (dirbuf w) (pkg_deps p ! i) ext) \<Longrightarrow>
   rec w (dep_path (dirbuf w) (pkg_deps p ! i) ext) = Some (EPKG_OK, w1) \<Longrightarrow>
   reaches rec env ext s (pkg_resolvdeps p w1, w1, Suc i)"
  by (erule reaches_trans_gen) (auto intro: reaches.intros)

text \<open>A run of the loop that returns is a course of the loop followed by one of its
  ends, and conversely (lemma \<open>deps_loop_iff\<close> below).\<close>

lemma deps_loop_cases:
  "deps_loop rec env ext p w i = Some res \<Longrightarrow>
   \<exists>pk wk k. reaches rec env ext (p, w, i) (pk, wk, k) \<and> loop_end rec env ext pk wk k res"
proof (induction "length (pkg_deps p) - i" arbitrary: p w i)
  case 0
  then have "res = (EPKG_OK, p, w)" by (simp add: deps_loop_done)
  with 0 have "loop_end rec env ext p w i res" by (simp add: loop_end_def)
  then show ?case by (blast intro: reaches.here)
next
  case (Suc d)
  then have i: "i < length (pkg_deps p)" by simp
  let ?dp = "dep_path (dirbuf w) (pkg_deps p ! i) ext"
  show ?case
  proof (cases "dep_type (pkg_deps p ! i) = PKG_NOTFOUND")
    case False
    with i Suc.prems have nx: "deps_loop rec env ext p w (Suc i) = Some res"
      by (simp add: deps_loop_skip1)
    have "\<exists>pk wk k. reaches rec env ext (p, w, Suc i) (pk, wk, k) \<and>
            loop_end rec env ext pk wk k res"
      using Suc.hyps(2) nx by (intro Suc.hyps(1)) simp_all
    then obtain pk wk k where
      "reaches rec env ext (p, w, Suc i) (pk, wk, k)" "loop_end rec env ext pk wk k res"
      by blast
    with i False show ?thesis by (blast intro: reaches.found)
  next
    case nf: True
    show ?thesis
    proof (cases "env_access env ?dp")
      case False
      with i nf Suc.prems have "loop_end rec env ext p w i res"
        by (auto simp: deps_loop_missing loop_end_def)
      then show ?thesis by (blast intro: reaches.here)
    next
      case True
      from Suc.prems i nf True obtain rc1 w1 where s1: "rec w ?dp = Some (rc1, w1)"
        by (subst (asm) deps_loop.simps) (auto split: option.splits)
      note d1 = deps_loop_nested[where rec=rec and w=w and e=ext, OF i nf True s1]
      show ?thesis
      proof (cases "rc1 = EPKG_OK")
        case False
        with Suc.prems i nf True s1 have "loop_end rec env ext p w i res"
          by (auto simp: d1 loop_end_def)
        then show ?thesis by (blast intro: reaches.here)
      next
        case ok: True
        with Suc.prems have
          nx: "deps_loop rec env ext (pkg_resolvdeps p w1) w1 (Suc i) = Some res"
          by (simp add: d1)
        have "\<exists>pk wk k. reaches rec env ext (pkg_resolvdeps p w1, w1, Suc i) (pk, wk, k) \<and>
                loop_end rec env ext pk wk k res"
          using Suc.hyps(2) nx by (intro Suc.hyps(1)) (simp_all add: length_deps_resolvdeps)
        then obtain pk wk k where
          r: "reaches rec env ext (pkg_resolvdeps p w1, w1, Suc i) (pk, wk, k)"
          and l: "loop_end rec env ext pk wk k res"
          by blast
        from reaches.installed[OF i nf True s1[unfolded ok] r] l show ?thesis by blast
      qed
    qed
  qed
qed

lemma loop_end_deps_loop:
  "loop_end rec env ext pk wk k res \<Longrightarrow> deps_loop rec env ext pk wk k = Some res"
  unfolding loop_end_def
proof (elim disjE conjE exE)
  assume "length (pkg_deps pk) \<le> k" "res = (EPKG_OK, pk, wk)"
  then show ?thesis by (simp add: deps_loop_done)
next
  assume "k < length (pkg_deps pk)" "dep_type (pkg_deps pk ! k) = PKG_NOTFOUND"
    "\<not> env_access env (dep_path (dirbuf wk) (pkg_deps pk ! k) ext)"
    "res = (EPKG_DEPENDENCY, pk,
             wk\<lparr>errstr := ''missing '' @ dep_name (pkg_deps pk ! k) @ ''-''
                             @ dep_version (pkg_deps pk ! k) @ '' dependency''\<rparr>)"
  then show ?thesis by (simp add: deps_loop_missing)
next
  fix rc1 w1
  assume k: "k < length (pkg_deps pk)" and nf: "dep_type (pkg_deps pk ! k) = PKG_NOTFOUND"
    and ac: "env_access env (dep_path (dirbuf wk) (pkg_deps pk ! k) ext)"
    and r: "rec wk (dep_path (dirbuf wk) (pkg_deps pk ! k) ext) = Some (rc1, w1)"
    and ne: "rc1 \<noteq> EPKG_OK"
    and res: "res = (EPKG_FATAL, pk,
                w1\<lparr>errstr := ''error while installing ''
                                @ dep_path (dirbuf wk) (pkg_deps pk ! k) ext
                                @ '' (dependency): '' @ errstr w1\<rparr>)"
  from deps_loop_nested[where rec=rec and w=wk and e=ext, OF k nf ac r] ne res
  show ?thesis by simp
qed

lemma deps_loop_iff:
  "deps_loop rec env ext p w i = Some res \<longleftrightarrow>
   (\<exists>pk wk k. reaches rec env ext (p, w, i) (pk, wk, k) \<and> loop_end rec env ext pk wk k res)"
  using deps_loop_cases[of rec env ext p w i res] reaches_deps_loop[of rec env ext p w i]
    loop_end_deps_loop[of rec env ext _ _ _ res]
  by auto

lemma loop_end_world:
  assumes "loop_end rec env ext pk wk k (rc, p', w')"
  shows "p' = pk" and "\<exists>v. (v = wk \<or> nested_step rec wk v) \<and> db w' = db v \<and>
           trace w' = trace v \<and> files w' = files v \<and> dirbuf w' = dirbuf v \<and>
           (rc = EPKG_OK \<longrightarrow> w' = wk \<and> length (pkg_deps pk) \<le> k)"
proof -
  show "p' = pk" using assms by (auto simp: loop_end_def)
  from assms consider
    "length (pkg_deps pk) \<le> k" "w' = wk" "rc = EPKG_OK"
    | "rc = EPKG_DEPENDENCY" "\<exists>m. w' = wk\<lparr>errstr := m\<rparr>"
    | rc1 w1 m where "rc = EPKG_FATAL" "w' = w1\<lparr>errstr := m\<rparr>"
      "rec wk (dep_path (dirbuf wk) (pkg_deps pk ! k) ext) = Some (rc1, w1)"
    unfolding loop_end_def by auto
  then show "\<exists>v. (v = wk \<or> nested_step rec wk v) \<and> db w' = db v \<and>
           trace w' = trace v \<and> files w' = files v \<and> dirbuf w' = dirbuf v \<and>
           (rc = EPKG_OK \<longrightarrow> w' = wk \<and> length (pkg_deps pk) \<le> k)"
  proof cases
    case 1
    then show ?thesis by auto
  next
    case 2
    then show ?thesis by (intro exI[of _ wk]) auto
  next
    case 3
    then have "nested_step rec wk w1" by (auto simp: nested_step_def)
    with 3 show ?thesis by (intro exI[of _ w1]) auto
  qed
qed

text \<open>The world in which the loop ends has arisen through recursive calls only, up to
  the error message.\<close>

lemma deps_loop_nested_only:
  assumes "deps_loop rec env ext p w i = Some (rc, p', w')"
  shows "same_pkg p p' \<and>
         (\<exists>v. nested_only rec w v \<and> db w' = db v \<and> trace w' = trace v \<and>
              files w' = files v \<and> dirbuf w' = dirbuf v)"
proof -
  from deps_loop_cases[OF assms] obtain pk wk k where
    r: "reaches rec env ext (p, w, i) (pk, wk, k)"
    and l: "loop_end rec env ext pk wk k (rc, p', w')" by blast
  from loop_end_world[OF l] obtain v where
    p: "p' = pk" and v: "v = wk \<or> nested_step rec wk v"
    and e: "db w' = db v" "trace w' = trace v" "files w' = files v" "dirbuf w' = dirbuf v"
    by blast
  from reaches_facts(3)[OF r] v have "nested_only rec w v"
    by (auto simp: nested_only_def intro: rtranclp.rtrancl_into_rtrancl)
  with reaches_facts(1)[OF r] p e show ?thesis by blast
qed

subsection \<open>Exit statuses are not read\<close>

lemma agree_refl [simp]: "agree w w"
  by (simp add: agree_def)

lemma agree_trace [simp]:
  "agree (w\<lparr>trace := t\<rparr>) v \<longleftrightarrow> agree w v"
  "agree w (v\<lparr>trace := t\<rparr>) \<longleftrightarrow> agree w v"
  by (simp_all add: agree_def)

lemma agree_errstr: "agree w v \<Longrightarrow> agree (w\<lparr>errstr := s\<rparr>) (v\<lparr>errstr := s\<rparr>)"
  by (simp add: agree_def)

lemma agree_dirbuf: "agree w v \<Longrightarrow> agree (w\<lparr>dirbuf := s\<rparr>) (v\<lparr>dirbuf := s\<rparr>)"
  by (simp add: agree_def)

lemma agree_lookup: "env_agree e1 e2 \<Longrightarrow> agree w v \<Longrightarrow> lookup e1 w origin = lookup e2 v origin"
  by (simp add: lookup_def pkgdb_query_def pkgdb_it_next_def env_agree_def agree_def)

lemma agree_resolvdeps: "agree w v \<Longrightarrow> pkg_resolvdeps p w = pkg_resolvdeps p v"
  by (simp add: pkg_resolvdeps_def resolve_dep_def agree_def)

lemma agree_extract:
  assumes "env_agree e1 e2" "agree w v"
  shows "fst (archive_read_extract e1 ae w) = fst (archive_read_extract e2 ae v) \<and>
         agree (snd (archive_read_extract e1 ae w)) (snd (archive_read_extract e2 ae v))"
  using assms by (simp add: archive_read_extract_def env_agree_def agree_def)

lemma agree_do_extract_loop:
  assumes e: "env_agree e1 e2"
  shows "agree w v \<Longrightarrow>
     fst (do_extract_loop e1 aerr ae hs ret w) = fst (do_extract_loop e2 aerr ae hs ret v) \<and>
     fst (snd (do_extract_loop e1 aerr ae hs ret w))
       = fst (snd (do_extract_loop e2 aerr ae hs ret v)) \<and>
     agree (snd (snd (do_extract_loop e1 aerr ae hs ret w)))
           (snd (snd (do_extract_loop e2 aerr ae hs ret v)))"
proof (induction hs arbitrary: ae ret w v)
  case Nil
  obtain r1 w1 where x1: "archive_read_extract e1 ae w = (r1, w1)" by force
  obtain r2 v1 where x2: "archive_read_extract e2 ae v = (r2, v1)" by force
  from agree_extract[OF e Nil, of ae] x1 x2 have "r1 = r2" "agree w1 v1" by simp_all
  then show ?case
    by (simp add: do_extract_loop_Nil x1 x2 agree_errstr)
next
  case (Cons h rest)
  obtain r1 w1 where x1: "archive_read_extract e1 ae w = (r1, w1)" by force
  obtain r2 v1 where x2: "archive_read_extract e2 ae v = (r2, v1)" by force
  from agree_extract[OF e Cons.prems, of ae] x1 x2 have r: "r1 = r2" and a: "agree w1 v1"
    by simp_all
  show ?case
  proof (cases h)
    case BadHeader
    with r a show ?thesis
      by (simp add: do_extract_loop_Cons x1 x2 agree_errstr)
  next
    case (Header ae')
    show ?thesis
    proof (cases "r2 = ARCHIVE_OK")
      case False
      with r a Header show ?thesis
        by (simp add: do_extract_loop_Cons x1 x2 agree_errstr)
    next
      case True
      have l1: "do_extract_loop e1 aerr ae (h # rest) ret w
                  = do_extract_loop e1 aerr ae' rest ARCHIVE_OK w1"
        using True r Header by (simp add: do_extract_loop_Cons x1)
      have l2: "do_extract_loop e2 aerr ae (h # rest) ret v
                  = do_extract_loop e2 aerr ae' rest ARCHIVE_OK v1"
        using True r Header by (simp add: do_extract_loop_Cons x2)
      show ?thesis unfolding l1 l2 by (rule Cons.IH[OF a])
    qed
  qed
qed

lemma agree_do_extract:
  assumes e: "env_agree e1 e2" and a: "agree w v"
  shows "fst (do_extract e1 a ae w) = fst (do_extract e2 a ae v) \<and>
         agree (snd (do_extract e1 a ae w)) (snd (do_extract e2 a ae v))"
proof -
  obtain r1 t1 w1 where x1: "do_extract_loop e1 (a_error a) ae (a_headers a) ARCHIVE_OK w = (r1, t1, w1)"
    using prod_cases3 by blast
  obtain r2 t2 v1 where x2: "do_extract_loop e2 (a_error a) ae (a_headers a) ARCHIVE_OK v = (r2, t2, v1)"
    using prod_cases3 by blast
  from agree_do_extract_loop[OF e a, of "a_error a" ae "a_headers a" ARCHIVE_OK] x1 x2
  have "r1 = r2" "t1 = t2" "agree w1 v1" by simp_all
  then show ?thesis
    by (simp add: do_extract_def x1 x2 pkg_error_set_def agree_errstr)
qed

lemma agree_install_steps:
  assumes e: "env_agree e1 e2" and a: "agree w v"
  shows "agree_st (install_steps e1 p a0 aeo w) (install_steps e2 p a0 aeo v)"
proof (cases aeo)
  case None
  with a show ?thesis by (simp add: install_steps_None)
next
  case (Some ae)
  let ?w = "w\<lparr>trace := trace w @ shell e1 (pre_cmds p (pkg_scripts p))\<rparr>"
  let ?v = "v\<lparr>trace := trace v @ shell e2 (pre_cmds p (pkg_scripts p))\<rparr>"
  obtain r1 w1 where x1: "do_extract e1 a0 ae ?w = (r1, w1)" by force
  obtain r2 v1 where x2: "do_extract e2 a0 ae ?v = (r2, v1)" by force
  from a have "agree ?w ?v" by simp
  from agree_do_extract[OF e this, of a0 ae] x1 x2 have "r1 = r2" "agree w1 v1" by simp_all
  then show ?thesis
    by (simp add: Some install_steps_Some[OF x1] install_steps_Some[OF x2])
qed

lemma agree_deps_loop:
  assumes e: "env_agree e1 e2" and r: "agree_rec r1 r2"
  shows "agree w v \<Longrightarrow>
     rel_option (\<lambda>(rc, p', w') (rc', p'', v'). rc = rc' \<and> p' = p'' \<and> agree w' v')
       (deps_loop r1 e1 ex p w i) (deps_loop r2 e2 ex p v i)"
proof (induction "length (pkg_deps p) - i" arbitrary: p w v i)
  case 0
  then show ?case by (simp add: deps_loop_done)
next
  case (Suc k)
  then have i: "i < length (pkg_deps p)" by simp
  let ?d = "pkg_deps p ! i"
  let ?dp = "dep_path (dirbuf w) ?d ex"
  from e have ac: "env_access e1 = env_access e2" by (simp add: env_agree_def)
  from Suc.prems have db: "dirbuf v = dirbuf w" by (simp add: agree_def)
  show ?case
  proof (cases "dep_type ?d = PKG_NOTFOUND")
    case False
    have "rel_option (\<lambda>(rc, p', w') (rc', p'', v'). rc = rc' \<and> p' = p'' \<and> agree w' v')
       (deps_loop r1 e1 ex p w (Suc i)) (deps_loop r2 e2 ex p v (Suc i))"
      using Suc.hyps(2) Suc.prems by (intro Suc.hyps(1)) simp_all
    with i False show ?thesis by (simp add: deps_loop_skip1)
  next
    case nf: True
    show ?thesis
    proof (cases "env_access e1 ?dp")
      case False
      with ac have "\<not> env_access e2 ?dp" by simp
      with False i nf Suc.prems show ?thesis
        by (simp add: deps_loop_missing agree_errstr db)
    next
      case True
      with ac have ac2: "env_access e2 ?dp" by simp
      from r Suc.prems have rr:
        "rel_option (\<lambda>(rc, w') (rc', v'). rc = rc' \<and> agree w' v') (r1 w ?dp) (r2 v ?dp)"
        by (simp add: agree_rec_def)
      show ?thesis
      proof (cases "r1 w ?dp")
        case None
        with rr have n2: "r2 v ?dp = None" by (cases "r2 v ?dp") simp_all
        have "deps_loop r1 e1 ex p w i = None"
          using i nf True None by (subst deps_loop.simps) simp
        moreover have "deps_loop r2 e2 ex p v i = None"
          using i nf ac2 n2 by (subst deps_loop.simps) (simp add: db)
        ultimately show ?thesis by simp
      next
        case (Some x)
        then obtain rc1 w1 where s1: "r1 w ?dp = Some (rc1, w1)" by (cases x) auto
        with rr obtain v1 where s2: "r2 v ?dp = Some (rc1, v1)" and a1: "agree w1 v1"
          by (cases "r2 v ?dp") auto
        note d1 = deps_loop_nested[where rec=r1 and w=w and e=ex, OF i nf True s1]
        note d2 = deps_loop_nested[where rec=r2 and w=v and e=ex, unfolded db, OF i nf ac2 s2]
        show ?thesis
        proof (cases "rc1 = EPKG_OK")
          case False
          with a1 show ?thesis
            by (simp add: d1 d2 agree_def)
        next
          case True
          have "rel_option (\<lambda>(rc, p', w') (rc', p'', v'). rc = rc' \<and> p' = p'' \<and> agree w' v')
             (deps_loop r1 e1 ex (pkg_resolvdeps p w1) w1 (Suc i))
             (deps_loop r2 e2 ex (pkg_resolvdeps p w1) v1 (Suc i))"
            using Suc.hyps(2) a1 by (intro Suc.hyps(1)) simp_all
          with True show ?thesis
            by (simp add: d1 d2 agree_resolvdeps[OF a1])
        qed
      qed
    qed
  qed
qed

lemma agree_after_open:
  assumes e: "env_agree e1 e2" and r: "agree_rec r1 r2" and a: "agree w v"
  shows "rel_option agree_st (after_open r1 e1 path p a0 aeo w) (after_open r2 e2 path p a0 aeo v)"
proof -
  note lk = agree_lookup[OF e a, of "pkg_origin p"]
  show ?thesis
  proof (cases "lookup e2 v (pkg_origin p) = Some EPKG_END \<and> strrchr path (CHR ''.'') \<noteq> None")
    case False
    with lk a show ?thesis
      by (auto simp: after_open_lookup agree_errstr agree_dirbuf split: option.splits)
  next
    case True
    then obtain ext where ext: "strrchr path (CHR ''.'') = Some ext" by auto
    let ?w = "w\<lparr>dirbuf := dirname path\<rparr>" and ?v = "v\<lparr>dirbuf := dirname path\<rparr>"
    from agree_deps_loop[OF e r agree_dirbuf[OF a],
        where ex=ext and p="pkg_resolvdeps p v" and i=0 and s1="dirname path"]
    have "rel_option (\<lambda>(rc, p', w') (rc', p'', v'). rc = rc' \<and> p' = p'' \<and> agree w' v')
       (deps_loop r1 e1 ext (pkg_resolvdeps p w) ?w 0)
       (deps_loop r2 e2 ext (pkg_resolvdeps p v) ?v 0)"
      by (simp add: agree_resolvdeps[OF a])
    then show ?thesis
      using True lk ext agree_install_steps[OF e]
      by (cases "deps_loop r1 e1 ext (pkg_resolvdeps p w) ?w 0";
          cases "deps_loop r2 e2 ext (pkg_resolvdeps p v) ?v 0")
         (auto simp: after_open_lookup)
  qed
qed

lemma agree_pkg_add_body:
  assumes e: "env_agree e1 e2" and r: "agree_rec r1 r2" and a: "agree w v"
  shows "rel_option agree_st (pkg_add_body r1 e1 w path) (pkg_add_body r2 e2 v path)"
proof -
  from e have o: "env_open2 e1 path = env_open2 e2 path" by (simp add: env_agree_def)
  from a have a': "agree (w\<lparr>trace := trace w @ [Open path]\<rparr>) (v\<lparr>trace := trace v @ [Open path]\<rparr>)"
    by simp
  show ?thesis
  proof (cases "env_open2 e2 path")
    case (OpenFail c msg)
    with o a show ?thesis by (simp add: pkg_add_body_def agree_def)
  next
    case (OpenEnd p a0)
    with o agree_after_open[OF e r a'] show ?thesis by (simp add: pkg_add_body_def)
  next
    case (OpenOk p a0 ae)
    with o agree_after_open[OF e r a'] show ?thesis by (simp add: pkg_add_body_def)
  qed
qed

lemma agree_cleanup:
  assumes e: "env_agree e1 e2" and s: "agree_st st st'"
  shows "fst (cleanup e1 pkg_p st) = fst (cleanup e2 pkg_p st') \<and>
         fst (snd (cleanup e1 pkg_p st)) = fst (snd (cleanup e2 pkg_p st')) \<and>
         agree (snd (snd (cleanup e1 pkg_p st))) (snd (snd (cleanup e2 pkg_p st')))"
proof -
  from e have reg: "env_register e1 = env_register e2" by (simp add: env_agree_def)
  from s show ?thesis
    by (cases st; cases st')
       (auto simp: pkgdb_register_pkg_def Let_def reg agree_def split: option.splits)
qed

lemma agree_pkg_add:
  assumes e: "env_agree e1 e2"
  shows "agree w v \<Longrightarrow>
     rel_option (\<lambda>(rc, out, w') (rc', out', v'). rc = rc' \<and> out = out' \<and> agree w' v')
       (pkg_add n e1 w path pkg_p) (pkg_add n e2 v path pkg_p)"
proof (induction n arbitrary: w v path pkg_p)
  case 0
  show ?case by simp
next
  case (Suc n)
  show ?case
  proof (cases path)
    case None
    with Suc.prems show ?thesis
      by (simp add: ERROR_BAD_ARG_def pkg_error_set_def agree_errstr)
  next
    case (Some pa)
    have r: "agree_rec (nested_add n e1) (nested_add n e2)"
      unfolding agree_rec_def nested_add_def
    proof (intro allI impI)
      fix w v dp assume "agree w v"
      from Suc.IH[OF this, of "Some dp" None]
      show "rel_option (\<lambda>(rc, w') (rc', v'). rc = rc' \<and> agree w' v')
              (map_option (\<lambda>(rc, out, w'). (rc, w')) (pkg_add n e1 w (Some dp) None))
              (map_option (\<lambda>(rc, out, w'). (rc, w')) (pkg_add n e2 v (Some dp) None))"
        by (cases "pkg_add n e1 w (Some dp) None"; cases "pkg_add n e2 v (Some dp) None") auto
    qed
    note b = agree_pkg_add_body[OF e r Suc.prems, of pa]
    show ?thesis
    proof (cases "pkg_add_body (nested_add n e1) e1 w pa")
      case None
      with b have "pkg_add_body (nested_add n e2) e2 v pa = None"
        by (cases "pkg_add_body (nested_add n e2) e2 v pa") simp_all
      with None show ?thesis by (simp add: Some pkg_add_Suc)
    next
      case (Some st)
      note s1 = this
      with b obtain st' where s2: "pkg_add_body (nested_add n e2) e2 v pa = Some st'"
        and ag: "agree_st st st'"
        by (cases "pkg_add_body (nested_add n e2) e2 v pa") simp_all
      from agree_cleanup[OF e ag, of pkg_p] show ?thesis
        by (auto simp: \<open>path = Some pa\<close> pkg_add_Suc s1 s2 split: prod.splits)
    qed
  qed
qed

subsection \<open>The bound on the recursion\<close>

text \<open>A run that returns within a bound returns the same result within any larger
  bound.\<close>

lemma deps_loop_mono:
  assumes r: "\<And>v dp x. r1 v dp = Some x \<Longrightarrow> r2 v dp = Some x"
  shows "deps_loop r1 env ex p w i = Some res \<Longrightarrow> deps_loop r2 env ex p w i = Some res"
proof (induction "length (pkg_deps p) - i" arbitrary: p w i)
  case 0
  then show ?case by (simp add: deps_loop_done)
next
  case (Suc k)
  then have i: "i < length (pkg_deps p)" by simp
  let ?dp = "dep_path (dirbuf w) (pkg_deps p ! i) ex"
  show ?case
  proof (cases "dep_type (pkg_deps p ! i) = PKG_NOTFOUND")
    case False
    with i Suc.prems have "deps_loop r1 env ex p w (Suc i) = Some res"
      by (simp add: deps_loop_skip1)
    then have "deps_loop r2 env ex p w (Suc i) = Some res"
      using Suc.hyps(2) by (intro Suc.hyps(1)) simp_all
    with i False show ?thesis by (simp add: deps_loop_skip1)
  next
    case nf: True
    show ?thesis
    proof (cases "env_access env ?dp")
      case False
      with i nf Suc.prems show ?thesis by (simp add: deps_loop_missing)
    next
      case True
      from Suc.prems i nf True obtain rc1 w1 where s1: "r1 w ?dp = Some (rc1, w1)"
        by (subst (asm) deps_loop.simps) (auto split: option.splits)
      from r[OF s1] have s2: "r2 w ?dp = Some (rc1, w1)" .
      note d1 = deps_loop_nested[where rec=r1 and w=w and e=ex, OF i nf True s1]
      note d2 = deps_loop_nested[where rec=r2 and w=w and e=ex, OF i nf True s2]
      show ?thesis
      proof (cases "rc1 = EPKG_OK")
        case False
        with Suc.prems show ?thesis by (simp add: d1 d2)
      next
        case True
        with Suc.prems have
          "deps_loop r1 env ex (pkg_resolvdeps p w1) w1 (Suc i) = Some res"
          by (simp add: d1)
        then have "deps_loop r2 env ex (pkg_resolvdeps p w1) w1 (Suc i) = Some res"
          using Suc.hyps(2) by (intro Suc.hyps(1)) simp_all
        with True show ?thesis by (simp add: d2)
      qed
    qed
  qed
qed

lemma pkg_add_body_mono:
  assumes r: "\<And>v dp x. r1 v dp = Some x \<Longrightarrow> r2 v dp = Some x"
      and b: "pkg_add_body r1 env w path = Some st"
  shows "pkg_add_body r2 env w path = Some st"
proof (cases "opened (env_open2 env path)")
  case None
  from pkg_add_body_unopened[OF None, of r1 w] pkg_add_body_unopened[OF None, of r2 w] b
  show ?thesis by auto
next
  case (Some x)
  then obtain p a aeo where op: "opened (env_open2 env path) = Some (p, a, aeo)"
    by (cases x) auto
  let ?w = "w\<lparr>trace := trace w @ [Open path]\<rparr>"
  from b have a1: "after_open r1 env path p a aeo ?w = Some st"
    by (simp add: pkg_add_body_opened[OF op])
  have "after_open r2 env path p a aeo ?w = Some st"
  proof (cases "lookup env ?w (pkg_origin p) = Some EPKG_END \<and> strrchr path (CHR ''.'') \<noteq> None")
    case False
    with a1 show ?thesis
      by (auto simp: after_open_lookup split: option.splits if_splits)
  next
    case True
    then obtain ext where ext: "strrchr path (CHR ''.'') = Some ext" by auto
    let ?u = "?w\<lparr>dirbuf := dirname path\<rparr>"
    from a1 True ext obtain res where
      d1: "deps_loop r1 env ext (pkg_resolvdeps p ?w) ?u 0 = Some res"
      by (auto simp: after_open_lookup split: option.splits)
    from deps_loop_mono[of r1 r2, OF r d1]
    have d2: "deps_loop r2 env ext (pkg_resolvdeps p ?w) ?u 0 = Some res" .
    from a1 True ext d1 d2 show ?thesis
      by (simp add: after_open_lookup)
  qed
  then show ?thesis by (simp add: pkg_add_body_opened[OF op])
qed

lemma pkg_add_fuel_Suc:
  "pkg_add n env w path pkg_p = Some res \<Longrightarrow> pkg_add (Suc n) env w path pkg_p = Some res"
proof (induction n arbitrary: w path pkg_p res)
  case 0
  then show ?case by simp
next
  case (Suc n)
  show ?case
  proof (cases path)
    case None
    with Suc.prems show ?thesis by simp
  next
    case (Some pa)
    have r: "\<And>v dp x. nested_add n env v dp = Some x \<Longrightarrow> nested_add (Suc n) env v dp = Some x"
      using Suc.IH by (auto simp: nested_add_def)
    from Suc.prems Some obtain st where
      b: "pkg_add_body (nested_add n env) env w pa = Some st" and c: "res = cleanup env pkg_p st"
      by (auto simp: pkg_add_Suc)
    from pkg_add_body_mono[of "nested_add n env" "nested_add (Suc n) env", OF r b] c Some
    show ?thesis by (simp add: pkg_add_Suc)
  qed
qed

lemma pkg_add_fuel_mono:
  "pkg_add n env w path pkg_p = Some res \<Longrightarrow> n \<le> m \<Longrightarrow> pkg_add m env w path pkg_p = Some res"
  by (induction m) (auto simp: le_Suc_eq pkg_add_fuel_Suc)

subsection \<open>The run of \<open>pkg_add\<close> through its steps\<close>

lemma pkg_add_gates:
  assumes op: "opened (env_open2 env path) = Some (p0, a, aeo)"
      and dup: "lookup env w (pkg_origin p0) = Some EPKG_END"
      and ext: "strrchr path (CHR ''.'') = Some ext"
  shows "pkg_add (Suc n) env w (Some path) pkg_p =
           map_option (\<lambda>res. cleanup env pkg_p (after_loop env a aeo res))
             (deps_loop (nested_add n env) env ext (pkg_resolvdeps p0 w)
                (w\<lparr>trace := trace w @ [Open path], dirbuf := dirname path\<rparr>) 0)"
  using dup ext
  by (simp add: pkg_add_Suc pkg_add_body_opened[OF op] after_open_lookup after_loop_def
        split: option.splits)

lemma reaches_start:
  assumes "reaches rec env ext (loop_start p0 w path) (pk, wk, k)"
  shows "pk = pkg_resolvdeps p0 wk" and "same_pkg p0 pk" and "length (pkg_deps pk) = length (pkg_deps p0)"
    and "nested_only rec (w\<lparr>trace := trace w @ [Open path], dirbuf := dirname path\<rparr>) wk"
proof -
  note r = assms[unfolded loop_start_def]
  from reaches_facts(4)[OF r, of p0] show pk: "pk = pkg_resolvdeps p0 wk" by simp
  then show "same_pkg p0 pk" by simp
  from pk show "length (pkg_deps pk) = length (pkg_deps p0)" by simp
  from reaches_facts(3)[OF r]
  show "nested_only rec (w\<lparr>trace := trace w @ [Open path], dirbuf := dirname path\<rparr>) wk" .
qed

lemma pkg_add_reaches:
  assumes op: "opened (env_open2 env path) = Some (p0, a, aeo)"
      and dup: "lookup env w (pkg_origin p0) = Some EPKG_END"
      and ext: "strrchr path (CHR ''.'') = Some ext"
      and r: "reaches (nested_add n env) env ext (loop_start p0 w path) (pk, wk, k)"
  shows "pkg_add (Suc n) env w (Some path) pkg_p =
           map_option (\<lambda>res. cleanup env pkg_p (after_loop env a aeo res))
             (deps_loop (nested_add n env) env ext pk wk k)"
  using reaches_deps_loop[OF r[unfolded loop_start_def]]
  by (simp add: pkg_add_gates[OF op dup ext])

lemma pkg_add_cases:
  assumes op: "opened (env_open2 env path) = Some (p0, a, aeo)"
      and dup: "lookup env w (pkg_origin p0) = Some EPKG_END"
      and ext: "strrchr path (CHR ''.'') = Some ext"
      and run: "pkg_add (Suc n) env w (Some path) pkg_p = Some (rc, out, w')"
  shows "\<exists>pk wk k res.
           reaches (nested_add n env) env ext (loop_start p0 w path) (pk, wk, k) \<and>
           loop_end (nested_add n env) env ext pk wk k res \<and>
           cleanup env pkg_p (after_loop env a aeo res) = (rc, out, w')"
proof -
  from run obtain res where
    d: "deps_loop (nested_add n env) env ext (pkg_resolvdeps p0 w)
          (w\<lparr>trace := trace w @ [Open path], dirbuf := dirname path\<rparr>) 0 = Some res"
    and c: "cleanup env pkg_p (after_loop env a aeo res) = (rc, out, w')"
    by (auto simp: pkg_add_gates[OF op dup ext])
  from deps_loop_cases[OF d] c show ?thesis
    unfolding loop_start_def by blast
qed

text \<open>The label \<open>cleanup\<close>, case by case.\<close>

lemma cleanup_failed:
  "r \<noteq> EPKG_OK \<Longrightarrow>
   cleanup env pkg_p (Opened r p ws) = (r, null_out pkg_p, ws\<lparr>trace := trace ws @ [Finish]\<rparr>)"
  by (simp add: null_out_def)

lemma cleanup_registered:
  "env_register env p = None \<Longrightarrow>
   cleanup env pkg_p (Opened EPKG_OK p ws) =
     (EPKG_OK, (case pkg_p of None \<Rightarrow> None | Some c \<Rightarrow> Some (Some p)),
      ws\<lparr>trace := trace ws @ [Finish, Register p], db := db ws @ [p]\<rparr>)"
  by (simp add: pkgdb_register_pkg_def)

lemma cleanup_refused:
  "env_register env p = Some (c, msg) \<Longrightarrow>
   cleanup env pkg_p (Opened EPKG_OK p ws) =
     (epkg c, null_out pkg_p,
      ws\<lparr>trace := trace ws @ [Finish, Register p], errstr := msg\<rparr>)"
  by (simp add: pkgdb_register_pkg_def null_out_def)

lemma reaches_bound_gen:
  "reaches rec env ext s s' \<Longrightarrow>
   snd (snd s) \<le> length (pkg_deps (fst s)) \<longrightarrow> snd (snd s') \<le> length (pkg_deps (fst s'))"
  by (induction rule: reaches.induct) simp_all

lemma reaches_end:
  assumes r: "reaches rec env ext (loop_start p0 w path) (pk, wk, k)"
      and e: "length (pkg_deps pk) \<le> k"
  shows "k = length (pkg_deps p0)"
  using reaches_bound_gen[OF r] reaches_start(3)[OF r] e by (simp add: loop_start_def)

text \<open>A transaction that ends before the loop over the dependencies.\<close>

lemma pkg_add_early:
  assumes op: "opened (env_open2 env path) = Some (p0, a, aeo)"
      and early: "lookup env w (pkg_origin p0) \<noteq> Some EPKG_END \<or> strrchr path (CHR ''.'') = None"
      and run: "pkg_add (Suc n) env w (Some path) pkg_p = Some (rc, out, w')"
  shows "rc \<noteq> EPKG_OK \<and>
         (\<exists>ws. db ws = db w \<and> trace ws = trace w @ [Open path] \<and>
               w' = ws\<lparr>trace := trace ws @ [Finish]\<rparr>)"
proof -
  let ?w1 = "w\<lparr>trace := trace w @ [Open path]\<rparr>"
  from run obtain st where
    st: "after_open (nested_add n env) env path p0 a aeo ?w1 = Some st"
    and cl: "cleanup env pkg_p st = (rc, out, w')"
    by (auto simp: pkg_add_Suc pkg_add_body_opened[OF op])
  from st early obtain r ws where
    sh: "st = Opened r p0 ws" and r: "r \<noteq> EPKG_OK"
    and ws: "db ws = db w" "trace ws = trace w @ [Open path]"
    by (auto simp: after_open_lookup split: option.splits if_splits)
  from cl sh r have "rc = r" "w' = ws\<lparr>trace := trace ws @ [Finish]\<rparr>"
    by auto
  with r ws show ?thesis by blast
qed

text \<open>A transaction that returns \<open>EPKG_OK\<close>.\<close>

lemma pkg_add_OK:
  assumes op: "opened (env_open2 env path) = Some (p0, a, aeo)"
      and run: "pkg_add (Suc n) env w (Some path) pkg_p = Some (EPKG_OK, out, w')"
  shows "\<exists>ext pk wd ws.
           lookup env w (pkg_origin p0) = Some EPKG_END \<and> strrchr path (CHR ''.'') = Some ext \<and>
           reaches (nested_add n env) env ext (loop_start p0 w path)
             (pk, wd, length (pkg_deps p0)) \<and>
           install_steps env pk a aeo wd = Opened EPKG_OK pk ws \<and>
           env_register env pk = None \<and>
           w' = ws\<lparr>trace := trace ws @ [Finish, Register pk], db := db ws @ [pk]\<rparr> \<and>
           out = (case pkg_p of None \<Rightarrow> None | Some c \<Rightarrow> Some (Some pk))"
proof -
  have g: "lookup env w (pkg_origin p0) = Some EPKG_END \<and> strrchr path (CHR ''.'') \<noteq> None"
  proof (rule ccontr)
    assume "\<not> ?thesis"
    then have "lookup env w (pkg_origin p0) \<noteq> Some EPKG_END \<or> strrchr path (CHR ''.'') = None"
      by blast
    from pkg_add_early[OF op this run] show False by simp
  qed
  then obtain ext where dup: "lookup env w (pkg_origin p0) = Some EPKG_END"
    and ext: "strrchr path (CHR ''.'') = Some ext" by auto
  from pkg_add_cases[OF op dup ext run] obtain pk wk k res where
    r: "reaches (nested_add n env) env ext (loop_start p0 w path) (pk, wk, k)"
    and l: "loop_end (nested_add n env) env ext pk wk k res"
    and c: "cleanup env pkg_p (after_loop env a aeo res) = (EPKG_OK, out, w')"
    by blast
  obtain rcd p' wd where res: "res = (rcd, p', wd)" by (cases res)
  have ok: "rcd = EPKG_OK"
  proof (rule ccontr)
    assume "rcd \<noteq> EPKG_OK"
    with c res show False by (simp add: after_loop_def)
  qed
  from l res ok have e: "length (pkg_deps pk) \<le> k" "p' = pk" "wd = wk"
    by (auto simp: loop_end_def)
  note k = reaches_end[OF r e(1)]
  from install_steps_shape[of env pk a aeo wk] obtain ri ws where
    i: "install_steps env pk a aeo wk = Opened ri pk ws" by blast
  from c res ok e i have c': "cleanup env pkg_p (Opened ri pk ws) = (EPKG_OK, out, w')"
    by (simp add: after_loop_def)
  have ri: "ri = EPKG_OK"
  proof (rule ccontr)
    assume "ri \<noteq> EPKG_OK"
    with c' show False by simp
  qed
  from c' ri have reg: "env_register env pk = None"
    by (auto simp: pkgdb_register_pkg_def Let_def split: option.splits)
  from c'[unfolded ri cleanup_registered[OF reg]]
  have "w' = ws\<lparr>trace := trace ws @ [Finish, Register pk], db := db ws @ [pk]\<rparr>"
    "out = (case pkg_p of None \<Rightarrow> None | Some c \<Rightarrow> Some (Some pk))"
    by simp_all
  with dup ext r[unfolded k] i[unfolded ri] reg show ?thesis by blast
qed


text \<open>The calls made so far are never forgotten: a run of \<open>pkg_add\<close> only adds to
  the trace.\<close>

lemma nested_only_trace:
  assumes step: "\<And>u dp rc v. rec u dp = Some (rc, v) \<Longrightarrow> \<exists>t. trace v = trace u @ t"
  shows "nested_only rec u v \<Longrightarrow> \<exists>t. trace v = trace u @ t"
  unfolding nested_only_def
proof (induction rule: rtranclp_induct)
  case base
  show ?case by simp
next
  case (step y z)
  from step.hyps(2) obtain dp rc where "rec y dp = Some (rc, z)"
    by (auto simp: nested_step_def)
  from assms[OF this] step.IH show ?case by auto
qed

lemma cleanup_trace:
  "cleanup env pkg_p st = (rc, out, w') \<Longrightarrow> \<exists>t. trace w' = trace (world_of st) @ t"
  by (cases st)
     (auto simp: pkgdb_register_pkg_def Let_def split: if_splits option.splits prod.splits)

lemma pkg_add_trace:
  "pkg_add n env w path pkg_p = Some (rc, out, w') \<Longrightarrow> \<exists>t. trace w' = trace w @ t"
proof (induction n arbitrary: w path pkg_p rc out w')
  case 0
  then show ?case by simp
next
  case (Suc n)
  let ?R = "nested_add n env"
  have step: "\<exists>t. trace v = trace u @ t" if "?R u dp = Some (rc, v)" for u dp rc v
    using that Suc.IH[of u "Some dp" None] by (auto simp: nested_add_def)
  show ?case
  proof (cases path)
    case None
    with Suc.prems show ?thesis
      by (auto simp: ERROR_BAD_ARG_def pkg_error_set_def)
  next
    case (Some pa)
    note run = Suc.prems[unfolded Some]
    show ?thesis
    proof (cases "opened (env_open2 env pa)")
      case None
      from pkg_add_body_unopened[OF None, of ?R w] run show ?thesis
        by (auto simp: pkg_add_Suc)
    next
      case (Some x)
      then obtain p0 a aeo where op: "opened (env_open2 env pa) = Some (p0, a, aeo)"
        by (cases x) auto
      show ?thesis
      proof (cases "lookup env w (pkg_origin p0) = Some EPKG_END \<and> strrchr pa (CHR ''.'') \<noteq> None")
        case False
        then have "lookup env w (pkg_origin p0) \<noteq> Some EPKG_END \<or> strrchr pa (CHR ''.'') = None"
          by blast
        from pkg_add_early[OF op this run] show ?thesis by auto
      next
        case True
        then obtain ext where dup: "lookup env w (pkg_origin p0) = Some EPKG_END"
          and ext: "strrchr pa (CHR ''.'') = Some ext" by auto
        from pkg_add_cases[OF op dup ext run] obtain pk wk k res where
          r: "reaches ?R env ext (loop_start p0 w pa) (pk, wk, k)"
          and l: "loop_end ?R env ext pk wk k res"
          and c: "cleanup env pkg_p (after_loop env a aeo res) = (rc, out, w')"
          by blast
        obtain rcd p' wd where res: "res = (rcd, p', wd)" by (cases res)
        have "\<exists>t. trace wk
                = trace (w\<lparr>trace := trace w @ [Open pa], dirbuf := dirname pa\<rparr>) @ t"
          by (rule nested_only_trace[OF _ reaches_start(4)[OF r]]) (rule step)
        then obtain t1 where
          t1: "trace wk = trace w @ [Open pa] @ t1" by auto
        from loop_end_world(2)[OF l[unfolded res]] obtain v where
          v: "v = wk \<or> nested_step ?R wk v" and e: "trace wd = trace v" by blast
        have "\<exists>t. trace v = trace wk @ t"
        proof (cases "v = wk")
          case True
          then show ?thesis by simp
        next
          case False
          with v obtain dp rc1 where "?R wk dp = Some (rc1, v)"
            by (auto simp: nested_step_def)
          then show ?thesis by (rule step)
        qed
        then obtain t2 where t2: "trace v = trace wk @ t2" ..
        have "\<exists>t3. trace (world_of (after_loop env a aeo res)) = trace wd @ t3"
          using install_steps_trace[of env p' a aeo wd]
          by (auto simp: res after_loop_def)
        then obtain t3 where t3: "trace (world_of (after_loop env a aeo res)) = trace wd @ t3" ..
        from cleanup_trace[OF c] obtain t4 where
          "trace w' = trace (world_of (after_loop env a aeo res)) @ t4" ..
        with t1 t2 t3 e show ?thesis by simp
      qed
    qed
  qed
qed

lemma reaches_trace:
  assumes "reaches (nested_add n env) env ext (loop_start p0 w path) (pk, wk, k)"
  shows "\<exists>t. trace wk = trace w @ [Open path] @ t"
proof -
  have step: "\<exists>t. trace v = trace u @ t" if "nested_add n env u dp = Some (rc, v)" for u dp rc v
    using that pkg_add_trace[of n env u "Some dp" None] by (auto simp: nested_add_def)
  have "\<exists>t. trace wk
          = trace (w\<lparr>trace := trace w @ [Open path], dirbuf := dirname path\<rparr>) @ t"
    by (rule nested_only_trace[OF _ reaches_start(4)[OF assms]]) (rule step)
  then show ?thesis by auto
qed

subsection \<open>Evaluation on the concrete installation\<close>

lemmas conc_defs =
  env0_def open0_def world0_def pkgA_def pkgB_def pkgD_def pkgE_def pkgG_def pkgH_def
  pkgK_def pkgM_def pkgN_def pkgP_def pkgQ_def
  depB_def depB2_def depC_def depF_def depQ_def scrPre_def scrIns_def scrPost_def exE_def exU_def
  arch0_def aeConf_def aeBin_def

lemmas eval_defs =
  pkg_add_Suc pkg_add_body_def after_open_lookup lookup_def pkgdb_query_def pkgdb_it_next_def
  deps_loop.simps pkg_resolvdeps_def resolve_dep_def dep_path_def MAXPATHLEN_def dirname_def
  rstrip_slash_def install_steps_def do_extract_def archive_read_extract_def lstat_def
  ENOENT_def pkg_error_set_def system_def script_cmd_def pkgdb_register_pkg_def nested_add_def
  is_conf_file_def do_extract_loop_unfold

lemma pkg_add_B:
  "pkg_add (Suc 0) env0 world0 (Some ''/r/B-1.t'') (Some c)
     = Some (EPKG_OK, Some (Some pkgB), worldB)"
  by (simp add: eval_defs conc_defs worldB_def)

lemma opened_B: "opened (env_open2 env0 ''/r/B-1.t'') = Some (pkgB, arch0, None)"
  by (simp add: conc_defs)

lemma pkg_add_H:
  "pkg_add (Suc 0) env0 world0 (Some ''/r/H-1.t'') None = Some (EPKG_OK, None, worldH)"
  by (simp add: eval_defs conc_defs worldH_def)

lemma opened_H: "opened (env_open2 env0 ''/r/H-1.t'') = Some (pkgH, arch0, Some aeBin)"
  by (simp add: conc_defs)

lemma lookup_world0: "lookup env0 world0 origin = Some EPKG_END"
  by (simp add: lookup_def pkgdb_query_def pkgdb_it_next_def conc_defs)

lemma dirname_r: "dirname (''/r/'' @ x # ''-1.t'') = ''/r''" if "x \<noteq> CHR ''/''"
  using that by (simp add: dirname_def rstrip_slash_def)

text \<open>The nested installation of \<open>B\<close> from the start of the loop of another package, and
  the nested attempt on \<open>F\<close>, before and after it.\<close>

lemma nested_B:
  "nested_add (Suc 0) env0 (world0\<lparr>trace := trace world0 @ [Open path], dirbuf := ''/r''\<rparr>)
     ''/r/B-1.t''
   = Some (EPKG_OK, worldB\<lparr>trace := Open path # trace worldB\<rparr>)"
  by (simp add: eval_defs conc_defs worldB_def)

lemma nested_F:
  "nested_add (Suc 0) env0 w ''/r/F-1.t''
   = Some (EPKG_FATAL, w\<lparr>errstr := ''bad archive'', trace := trace w @ [Open ''/r/F-1.t'']\<rparr>)"
  by (simp add: eval_defs conc_defs)

lemma dep_path_r:
  "dep_path ''/r'' depB ''.t'' = ''/r/B-1.t''"
  "dep_path ''/r'' depB2 ''.t'' = ''/r/B2-1.t''"
  "dep_path ''/r'' depC ''.t'' = ''/r/C-1.t''"
  "dep_path ''/r'' depF ''.t'' = ''/r/F-1.t''"
  "dep_path ''/r'' depQ ''.t'' = ''/r/Q-1.t''"
  by (simp_all add: dep_path_def MAXPATHLEN_def conc_defs)

lemma access0:
  "env_access env0 ''/r/B-1.t''" "env_access env0 ''/r/F-1.t''" "env_access env0 ''/r/Q-1.t''"
  "\<not> env_access env0 ''/r/C-1.t''" "\<not> env_access env0 ''/r/B2-1.t''"
  by (simp_all add: env0_def)

text \<open>The loop of a package whose first dependency is \<open>B\<close>, started in the empty world:
  it passes \<open>B\<close> by installing it.\<close>

lemma reaches_past_B:
  assumes "pkg_deps p0 ! 0 = depB" and "0 < length (pkg_deps p0)" and "dirname path = ''/r''"
  shows "reaches (nested_add (Suc 0) env0) env0 ''.t'' (loop_start p0 world0 path)
           (pkg_resolvdeps p0 (worldB\<lparr>trace := Open path # trace worldB\<rparr>),
            worldB\<lparr>trace := Open path # trace worldB\<rparr>, Suc 0)"
proof -
  let ?s = "world0\<lparr>trace := trace world0 @ [Open path], dirbuf := ''/r''\<rparr>"
  let ?p = "pkg_resolvdeps p0 world0"
  have d: "pkg_deps ?p ! 0 = depB"
    using assms(1,2) by (simp add: resolvdeps_nth resolve_dep_def conc_defs)
  have "reaches (nested_add (Suc 0) env0) env0 ''.t'' (?p, ?s, 0)
          (pkg_resolvdeps ?p (worldB\<lparr>trace := Open path # trace worldB\<rparr>),
           worldB\<lparr>trace := Open path # trace worldB\<rparr>, Suc 0)"
  proof (rule reaches.installed[OF _ _ _ _ reaches.here])
    show "0 < length (pkg_deps ?p)" using assms(2) by simp
    show "dep_type (pkg_deps ?p ! 0) = PKG_NOTFOUND" unfolding d by (simp add: depB_def)
    have b: "dirbuf ?s = ''/r''" by simp
    show "env_access env0 (dep_path (dirbuf ?s) (pkg_deps ?p ! 0) ''.t'')"
      unfolding d b dep_path_r by (rule access0)
    show "nested_add (Suc 0) env0 ?s (dep_path (dirbuf ?s) (pkg_deps ?p ! 0) ''.t'')
            = Some (EPKG_OK, worldB\<lparr>trace := Open path # trace worldB\<rparr>)"
      unfolding d b dep_path_r by (rule nested_B)
  qed
  then show ?thesis by (simp add: loop_start_def assms(3))
qed

lemma pkg_add_A:
  "pkg_add (Suc (Suc 0)) env0 world0 (Some ''/r/A-1.t'') None = Some (EPKG_DEPENDENCY, None, worldA)"
  by (simp add: eval_defs conc_defs worldB_def worldA_def)

lemma not_steps_ok_A: "\<not> steps_ok (nested_add (Suc 0) env0) env0 world0 ''/r/A-1.t''"
  by (simp add: steps_ok_def eval_defs conc_defs)

lemma pkg_add_M:
  "pkg_add (Suc (Suc 0)) env0 world0 (Some ''/r/M-1.t'') None = Some (EPKG_OK, None, worldM)"
  by (simp add: eval_defs conc_defs worldB_def worldM_def)

lemma steps_ok_M: "steps_ok (nested_add (Suc 0) env0) env0 world0 ''/r/M-1.t''"
  by (simp add: steps_ok_def eval_defs conc_defs)

section \<open>The extension check\<close>

text \<open>
  Claim C10, amended.  When the archive has been opened and the duplicate check has
  found no record, a path without any \<open>'.'\<close> makes \<open>pkg_add\<close> return \<open>EPKG_FATAL\<close>
  with the message ``has no extension'': the out-parameter is set to \<open>NULL\<close>, the
  database and the files are as before, and the only collaborator calls are the opening
  and the release of the archive (no script, no extraction, no registration).  The
  dependencies of the package play no role: the check precedes their resolution.  (The
  call of \<open>dirname\<close> precedes the check, and has left its result in its buffer.)
\<close>

theorem pkg_add_no_extension:
  assumes "opened (env_open2 env path) = Some (p, a, aeo)"
      and "lookup env w (pkg_origin p) = Some EPKG_END"
      and "CHR ''.'' \<notin> set path"
  shows "pkg_add (Suc n) env w (Some path) pkg_p =
           Some (EPKG_FATAL, null_out pkg_p,
                 w\<lparr>errstr := path @ '' has no extension'', dirbuf := dirname path,
                   trace := trace w @ [Open path, Finish]\<rparr>)"
proof -
  have "strrchr path (CHR ''.'') = None"
    using assms(3) by (simp add: strrchr_None_iff)
  then show ?thesis
    using assms(1,2)
    by (simp add: pkg_add_Suc pkg_add_body_opened after_open_lookup null_out_def)
qed

theorem pkg_add_no_extension_witness:
  "opened (env_open2 env0 ''B'') = Some (pkgB, arch0, None) \<and>
   lookup env0 world0 (pkg_origin pkgB) = Some EPKG_END \<and>
   CHR ''.'' \<notin> set ''B'' \<and>
   pkg_add (Suc 0) env0 world0 (Some ''B'') None =
     Some (EPKG_FATAL, None,
           world0\<lparr>errstr := ''B has no extension'', dirbuf := ''.'',
                  trace := [Open ''B'', Finish]\<rparr>)"
proof -
  have h1: "opened (env_open2 env0 ''B'') = Some (pkgB, arch0, None)"
    by (simp add: env0_def open0_def)
  have h2: "lookup env0 world0 (pkg_origin pkgB) = Some EPKG_END"
    by (rule lookup_world0)
  have h3: "CHR ''.'' \<notin> set ''B''" by simp
  show ?thesis
    using h1 h2 h3 pkg_add_no_extension [OF h1 h2 h3, of 0 None]
    by (simp add: null_out_def world0_def dirname_def rstrip_slash_def)
qed

text \<open>
  The claim as written fails when an earlier step ends the transaction: the path
  \<open>B\<close> has no \<open>'.'\<close>, and with the package already in the database the outcome is
  \<open>EPKG_INSTALLED\<close>.
\<close>

theorem pkg_add_no_extension_counterexample:
  "CHR ''.'' \<notin> set ''B'' \<and>
   map_option fst (pkg_add (Suc 0) env0 (world0\<lparr>db := [pkgB]\<rparr>) (Some ''B'') None)
     = Some EPKG_INSTALLED \<and>
   map_option (errstr \<circ> snd \<circ> snd)
       (pkg_add (Suc 0) env0 (world0\<lparr>db := [pkgB]\<rparr>) (Some ''B'') None)
     = Some ''package already installed''"
  by (simp add: pkg_add_Suc pkg_add_body_def env0_def open0_def after_open_lookup lookup_def
        pkgdb_query_def pkgdb_it_next_def world0_def)

section \<open>The out-parameter and the archive\<close>

text \<open>
  Claim C9, amended.  For an invocation with a path that is not \<open>NULL\<close> and an
  out-parameter that is not \<open>NULL\<close>: when \<open>pkg_add\<close> returns \<open>EPKG_OK\<close> the
  out-parameter holds the descriptor that \<open>pkg_open2\<close> produced (with its dependencies
  resolved), which is also the record registered last; on every other code it holds
  \<open>NULL\<close>.  An archive that was opened is released: the last collaborator calls are
  \<open>archive_read_finish\<close> and, on success of the earlier steps, the registration.
  When the archive could not be opened there is none to release.
\<close>

theorem pkg_add_out_parameter:
  assumes "pkg_add (Suc n) env w (Some path) (Some c) = Some (rc, out, w')"
  shows "(rc = EPKG_OK \<longrightarrow>
            (\<exists>p0 a aeo p. opened (env_open2 env path) = Some (p0, a, aeo) \<and> same_pkg p0 p \<and>
                 out = Some (Some p) \<and> db w' \<noteq> [] \<and> last (db w') = p)) \<and>
         (rc \<noteq> EPKG_OK \<longrightarrow> out = Some None) \<and>
         (opened (env_open2 env path) \<noteq> None \<longrightarrow>
            (\<exists>t p. trace w' = t @ [Finish] \<or> trace w' = t @ [Finish, Register p])) \<and>
         (opened (env_open2 env path) = None \<longrightarrow> trace w' = trace w @ [Open path])"
proof (cases "opened (env_open2 env path)")
  case None
  from pkg_add_body_unopened[OF None, of "nested_add n env" w] assms None
  show ?thesis
    by (auto simp: pkg_add_Suc)
next
  case (Some t)
  then obtain p0 a aeo where op: "opened (env_open2 env path) = Some (p0, a, aeo)"
    by (cases t) auto
  from assms obtain st where
    st: "after_open (nested_add n env) env path p0 a aeo (w\<lparr>trace := trace w @ [Open path]\<rparr>)
           = Some st"
    and cl: "cleanup env (Some c) st = (rc, out, w')"
    by (auto simp: pkg_add_Suc pkg_add_body_opened[OF op])
  from after_open_shape[OF st] obtain r p ws where
    sh: "st = Opened r p ws" and sp: "same_pkg p0 p" by blast
  from cleanup_Opened_trace[OF cl[unfolded sh]] op sp show ?thesis
    by (cases "r = EPKG_OK") auto
qed

theorem pkg_add_out_parameter_witness:
  "pkg_add (Suc 0) env0 world0 (Some ''/r/B-1.t'') (Some None)
     = Some (EPKG_OK, Some (Some pkgB), worldB) \<and>
   opened (env_open2 env0 ''/r/B-1.t'') \<noteq> None \<and>
   last (db worldB) = pkgB \<and>
   (\<exists>t p. trace worldB = t @ [Finish] \<or> trace worldB = t @ [Finish, Register p])"
  using pkg_add_out_parameter [OF pkg_add_B [of None]] pkg_add_B [of None]
  by (auto simp: opened_B)

text \<open>
  The claim as written fails for a \<open>NULL\<close> path: \<open>pkg_add\<close> returns before it
  reaches the out-parameter, which keeps what it held.
\<close>

theorem pkg_add_out_parameter_counterexample:
  "pkg_add (Suc 0) env0 world0 None (Some (Some pkgB)) =
     Some (EPKG_FATAL, Some (Some pkgB), world0\<lparr>errstr := ''Bad argument path''\<rparr>)"
  by (simp add: ERROR_BAD_ARG_def pkg_error_set_def)

section \<open>Configuration templates\<close>

text \<open>
  Claim C2 at a failing input.  The archive holds the template \<open>x.pkgconf\<close>, whose
  target \<open>x\<close> does not exist.  \<open>do_extract\<close> succeeds and writes the template, and
  \<open>x\<close> still does not exist afterwards: \<open>lstat\<close> answers \<open>-1\<close> for a missing
  file, never \<open>ENOENT\<close>, so the second extraction is never made
  (lemma \<open>do_extract_loop_unfold\<close>).
\<close>

theorem do_extract_template_not_seeded:
  "env_is_conf_file env0 (ae_pathname aeConf) = Some ''x'' \<and>
   files world0 ''x'' = None \<and>
   fst (do_extract env0 arch0 aeConf world0) = EPKG_OK \<and>
   files (snd (do_extract env0 arch0 aeConf world0)) ''x.pkgconf'' = Some ''dflt'' \<and>
   files (snd (do_extract env0 arch0 aeConf world0)) ''x'' = None"
  by (simp add: do_extract_def do_extract_loop_unfold archive_read_extract_def conc_defs
        is_conf_file_def)

section \<open>Dependencies that cannot be satisfied\<close>

text \<open>
  Claim C3, amended.  The package has been opened, is not installed, and its path has an
  extension.  The loop over its dependencies, started before \<open>deps[0]\<close>, has come to
  stand before \<open>deps[k]\<close> in the world \<open>wk\<close>: it has passed the dependencies before
  it in declared order, each one either resolved or installed by a recursive call that
  returned \<open>EPKG_OK\<close>.  The dependency \<open>deps[k]\<close> has no record in the database
  of \<open>wk\<close>, and its candidate file, named \<open>name-version.ext\<close> in the directory that
  the buffer of \<open>dirname\<close> holds, does not exist.  Then \<open>pkg_add\<close> returns
  \<open>EPKG_DEPENDENCY\<close> with the message \<open>missing name-version dependency\<close> and the
  out-parameter \<open>NULL\<close>, and the world it leaves is \<open>wk\<close> with this message and the
  release of the archive: no later dependency is examined, no recursive call is made
  for one, nothing is run or extracted, and the package is not registered.  (The
  records of the dependencies installed before \<open>deps[k]\<close> stay.)
\<close>

theorem pkg_add_missing_dependency:
  assumes op: "opened (env_open2 env path) = Some (p0, a, aeo)"
      and dup: "lookup env w (pkg_origin p0) = Some EPKG_END"
      and ext: "strrchr path (CHR ''.'') = Some ext"
      and before: "reaches (nested_add n env) env ext (loop_start p0 w path) (pk, wk, k)"
      and k: "k < length (pkg_deps p0)"
      and unresolved: "dep_origin (pkg_deps p0 ! k) \<notin> origins wk"
      and nocand: "\<not> env_access env (dep_path (dirbuf wk) (pkg_deps p0 ! k) ext)"
  shows "pkg_add (Suc n) env w (Some path) pkg_p =
           Some (EPKG_DEPENDENCY, null_out pkg_p,
                 wk\<lparr>errstr := ''missing '' @ dep_name (pkg_deps p0 ! k) @ ''-''
                                 @ dep_version (pkg_deps p0 ! k) @ '' dependency'',
                    trace := trace wk @ [Finish]\<rparr>)"
proof -
  note pk = reaches_start(1)[OF before]
  have d: "pkg_deps pk ! k = resolve_dep wk (pkg_deps p0 ! k)"
    using k by (simp add: pk resolvdeps_nth)
  have "deps_loop (nested_add n env) env ext pk wk k =
          Some (EPKG_DEPENDENCY, pk,
                wk\<lparr>errstr := ''missing '' @ dep_name (pkg_deps pk ! k) @ ''-''
                                @ dep_version (pkg_deps pk ! k) @ '' dependency''\<rparr>)"
    using k unresolved nocand
    by (intro deps_loop_missing) (simp_all add: d, simp add: pk)
  then show ?thesis
    by (simp add: pkg_add_reaches[OF op dup ext before] after_loop_def null_out_def d)
qed

theorem pkg_add_missing_dependency_witness:
  "opened (env_open2 env0 ''/r/A-1.t'') = Some (pkgA, arch0, Some aeConf) \<and>
   lookup env0 world0 (pkg_origin pkgA) = Some EPKG_END \<and>
   strrchr ''/r/A-1.t'' (CHR ''.'') = Some ''.t'' \<and>
   pkg_deps pkgA = [depB, depC] \<and>
   reaches (nested_add (Suc 0) env0) env0 ''.t'' (loop_start pkgA world0 ''/r/A-1.t'')
     (pkg_resolvdeps pkgA (worldB\<lparr>trace := Open ''/r/A-1.t'' # trace worldB\<rparr>),
      worldB\<lparr>trace := Open ''/r/A-1.t'' # trace worldB\<rparr>, Suc 0) \<and>
   dep_origin depC \<notin> origins worldB \<and>
   dep_path (dirbuf worldB) depC ''.t'' = ''/r/C-1.t'' \<and>
   \<not> env_access env0 ''/r/C-1.t'' \<and>
   pkg_add (Suc (Suc 0)) env0 world0 (Some ''/r/A-1.t'') None =
     Some (EPKG_DEPENDENCY, None,
           worldB\<lparr>errstr := ''missing C-1 dependency'',
                  trace := Open ''/r/A-1.t'' # trace worldB @ [Finish]\<rparr>)"
proof -
  let ?wk = "worldB\<lparr>trace := Open ''/r/A-1.t'' # trace worldB\<rparr>"
  have op: "opened (env_open2 env0 ''/r/A-1.t'') = Some (pkgA, arch0, Some aeConf)"
    by (simp add: conc_defs)
  have ext: "strrchr ''/r/A-1.t'' (CHR ''.'') = Some ''.t''" by simp
  have ds: "pkg_deps pkgA = [depB, depC]" by (simp add: pkgA_def)
  have before: "reaches (nested_add (Suc 0) env0) env0 ''.t'' (loop_start pkgA world0 ''/r/A-1.t'')
     (pkg_resolvdeps pkgA ?wk, ?wk, Suc 0)"
    by (rule reaches_past_B) (simp_all add: ds dirname_def rstrip_slash_def)
  have k: "Suc 0 < length (pkg_deps pkgA)" by (simp add: ds)
  have un: "dep_origin depC \<notin> origins worldB"
    by (simp add: origins_def worldB_def depC_def pkgB_def)
  have b: "dirbuf worldB = ''/r''" by (simp add: worldB_def)
  have dp: "dep_path (dirbuf worldB) depC ''.t'' = ''/r/C-1.t''"
    unfolding b by (rule dep_path_r)
  have un': "dep_origin (pkg_deps pkgA ! Suc 0) \<notin> origins ?wk"
    using un by (simp add: ds)
  have nc: "\<not> env_access env0 (dep_path (dirbuf ?wk) (pkg_deps pkgA ! Suc 0) ''.t'')"
    using dp access0(4) by (simp add: ds)
  from pkg_add_missing_dependency [OF op lookup_world0 ext before k un' nc, of None]
  have "pkg_add (Suc (Suc 0)) env0 world0 (Some ''/r/A-1.t'') None =
     Some (EPKG_DEPENDENCY, None,
           worldB\<lparr>errstr := ''missing C-1 dependency'',
                  trace := Open ''/r/A-1.t'' # trace worldB @ [Finish]\<rparr>)"
    by (simp add: ds null_out_def depC_def)
  with op lookup_world0 ext ds before un dp access0(4) show ?thesis by simp
qed

text \<open>
  The claim as written fails when an earlier step ends the transaction: \<open>D\<close> depends
  on \<open>C\<close>, which has no record and no candidate file, and with \<open>D\<close> already in the
  database the outcome is \<open>EPKG_INSTALLED\<close>, not the missing dependency.
\<close>

theorem pkg_add_missing_dependency_counterexample:
  "pkg_deps pkgD = [depC, depB] \<and>
   dep_origin depC \<notin> origins (world0\<lparr>db := [pkgD]\<rparr>) \<and>
   \<not> env_access env0 (dep_path (dirname ''/r/D-1.t'') depC ''.t'') \<and>
   pkg_add (Suc 0) env0 (world0\<lparr>db := [pkgD]\<rparr>) (Some ''/r/D-1.t'') None =
     Some (EPKG_INSTALLED, None,
           world0\<lparr>db := [pkgD], errstr := ''package already installed'',
                  trace := [Open ''/r/D-1.t'', Finish]\<rparr>)"
  by (simp add: eval_defs conc_defs origins_def)

section \<open>Dependencies installed from sibling archives\<close>

text \<open>
  Claim C4, amended.  The package has been opened, is not installed, and its path has an
  extension.  The loop over its dependencies has come to stand before \<open>deps[k]\<close> in
  the world \<open>wk\<close>, having passed the dependencies before it in declared order, each
  one either resolved or installed by a recursive call that returned \<open>EPKG_OK\<close>.
  The dependency \<open>deps[k]\<close> has no record in the database of \<open>wk\<close>, and its
  candidate file, named \<open>name-version.ext\<close> in the directory that the buffer of
  \<open>dirname\<close> holds, exists.  \<open>pkg_add\<close> then calls itself on the candidate, in the
  world \<open>wk\<close> and with a \<open>NULL\<close> out-parameter.  If that call returns a code other
  than \<open>EPKG_OK\<close>, the transaction ends with the code \<open>EPKG_FATAL\<close> (the code of
  every generic fatal error) and the message
  \<open>error while installing <candidate> (dependency): <message of the nested call>\<close>,
  in the world the nested call has left: nothing more is run and nothing is registered
  for the dependent package.  If it returns \<open>EPKG_OK\<close>, the dependencies are resolved
  again, against the database the nested call has left, and the loop comes to stand
  before \<open>deps[k + 1]\<close> in the world the nested call has left; the outcome of
  \<open>pkg_add\<close> is that of the loop from there on.
\<close>

theorem pkg_add_dependency_install:
  assumes op: "opened (env_open2 env path) = Some (p0, a, aeo)"
      and dup: "lookup env w (pkg_origin p0) = Some EPKG_END"
      and ext: "strrchr path (CHR ''.'') = Some ext"
      and before: "reaches (nested_add n env) env ext (loop_start p0 w path) (pk, wk, k)"
      and k: "k < length (pkg_deps p0)"
      and unresolved: "dep_origin (pkg_deps p0 ! k) \<notin> origins wk"
      and cand: "env_access env (dep_path (dirbuf wk) (pkg_deps p0 ! k) ext)"
      and nested: "pkg_add n env wk (Some (dep_path (dirbuf wk) (pkg_deps p0 ! k) ext)) None
                   = Some (rc1, out1, w1)"
  shows "(rc1 \<noteq> EPKG_OK \<longrightarrow>
            pkg_add (Suc n) env w (Some path) pkg_p =
              Some (EPKG_FATAL, null_out pkg_p,
                    w1\<lparr>errstr := ''error while installing ''
                                    @ dep_path (dirbuf wk) (pkg_deps p0 ! k) ext
                                    @ '' (dependency): '' @ errstr w1,
                       trace := trace w1 @ [Finish]\<rparr>)) \<and>
         (rc1 = EPKG_OK \<longrightarrow>
            reaches (nested_add n env) env ext (loop_start p0 w path)
              (pkg_resolvdeps p0 w1, w1, Suc k) \<and>
            pkg_add (Suc n) env w (Some path) pkg_p =
              map_option (\<lambda>res. cleanup env pkg_p (after_loop env a aeo res))
                (deps_loop (nested_add n env) env ext (pkg_resolvdeps p0 w1) w1 (Suc k)))"
proof -
  let ?rec = "nested_add n env"
  note pk = reaches_start(1)[OF before]
  have d: "pkg_deps pk ! k = resolve_dep wk (pkg_deps p0 ! k)"
    using k by (simp add: pk resolvdeps_nth)
  have k': "k < length (pkg_deps pk)" using k by (simp add: pk)
  have nf: "dep_type (pkg_deps pk ! k) = PKG_NOTFOUND"
    using unresolved by (simp add: d resolve_dep_def origins_def)
  have ac: "env_access env (dep_path (dirbuf wk) (pkg_deps pk ! k) ext)"
    using cand by (simp add: d dep_path_def)
  have rec: "?rec wk (dep_path (dirbuf wk) (pkg_deps pk ! k) ext) = Some (rc1, w1)"
    using nested by (simp add: nested_add_def d dep_path_def)
  note dl = deps_loop_nested[where rec="?rec" and w=wk and e=ext, OF k' nf ac rec]
  have dp: "dep_path (dirbuf wk) (pkg_deps pk ! k) ext
              = dep_path (dirbuf wk) (pkg_deps p0 ! k) ext"
    by (simp add: d dep_path_def)
  show ?thesis
  proof (intro conjI impI)
    assume "rc1 \<noteq> EPKG_OK"
    then show "pkg_add (Suc n) env w (Some path) pkg_p =
              Some (EPKG_FATAL, null_out pkg_p,
                    w1\<lparr>errstr := ''error while installing ''
                                    @ dep_path (dirbuf wk) (pkg_deps p0 ! k) ext
                                    @ '' (dependency): '' @ errstr w1,
                       trace := trace w1 @ [Finish]\<rparr>)"
      by (simp add: pkg_add_reaches[OF op dup ext before] dl dp after_loop_def null_out_def)
  next
    assume ok: "rc1 = EPKG_OK"
    from reaches_installed[OF before k' nf ac rec[unfolded ok]]
    show "reaches ?rec env ext (loop_start p0 w path) (pkg_resolvdeps p0 w1, w1, Suc k)"
      by (simp add: pk)
  next
    assume ok: "rc1 = EPKG_OK"
    have "pkg_resolvdeps pk w1 = pkg_resolvdeps p0 w1"
      by (subst pk) simp
    with dl ok have "deps_loop ?rec env ext pk wk k
                       = deps_loop ?rec env ext (pkg_resolvdeps p0 w1) w1 (Suc k)"
      by simp
    then show "pkg_add (Suc n) env w (Some path) pkg_p =
              map_option (\<lambda>res. cleanup env pkg_p (after_loop env a aeo res))
                (deps_loop ?rec env ext (pkg_resolvdeps p0 w1) w1 (Suc k))"
      unfolding pkg_add_reaches[OF op dup ext before] by simp
  qed
qed

theorem pkg_add_dependency_install_witness:
  "opened (env_open2 env0 ''/r/K-1.t'') = Some (pkgK, arch0, Some aeBin) \<and>
   pkg_deps pkgK = [depB, depF] \<and>
   reaches (nested_add (Suc 0) env0) env0 ''.t'' (loop_start pkgK world0 ''/r/K-1.t'')
     (pkg_resolvdeps pkgK (worldB\<lparr>trace := Open ''/r/K-1.t'' # trace worldB\<rparr>),
      worldB\<lparr>trace := Open ''/r/K-1.t'' # trace worldB\<rparr>, Suc 0) \<and>
   dep_origin depF \<notin> origins worldB \<and>
   env_access env0 (dep_path (dirbuf worldB) depF ''.t'') \<and>
   pkg_add (Suc (Suc 0)) env0 world0 (Some ''/r/K-1.t'') None =
     Some (EPKG_FATAL, None,
           worldB\<lparr>errstr := ''error while installing /r/F-1.t (dependency): bad archive'',
                  trace := Open ''/r/K-1.t'' # trace worldB @ [Open ''/r/F-1.t'', Finish]\<rparr>) \<and>
   opened (env_open2 env0 ''/r/N-1.t'') = Some (pkgN, arch0, None) \<and>
   pkg_deps pkgN = [depB, depB2] \<and>
   dep_origin depB \<notin> origins world0 \<and> dep_origin depB2 \<notin> origins world0 \<and>
   env_access env0 (dep_path (dirname ''/r/N-1.t'') depB ''.t'') \<and>
   \<not> env_access env0 (dep_path (dirname ''/r/N-1.t'') depB2 ''.t'') \<and>
   reaches (nested_add (Suc 0) env0) env0 ''.t'' (loop_start pkgN world0 ''/r/N-1.t'')
     (pkg_resolvdeps pkgN (worldB\<lparr>trace := Open ''/r/N-1.t'' # trace worldB\<rparr>),
      worldB\<lparr>trace := Open ''/r/N-1.t'' # trace worldB\<rparr>, Suc 0) \<and>
   map dep_type (pkg_deps (pkg_resolvdeps pkgN worldB)) = [PKG_INSTALLED, PKG_INSTALLED] \<and>
   map_option fst (pkg_add (Suc (Suc 0)) env0 world0 (Some ''/r/N-1.t'') None) = Some EPKG_OK \<and>
   map_option (map pkg_name \<circ> db \<circ> snd \<circ> snd)
      (pkg_add (Suc (Suc 0)) env0 world0 (Some ''/r/N-1.t'') None) = Some [''B'', ''N'']"
proof -
  let ?wk = "worldB\<lparr>trace := Open ''/r/K-1.t'' # trace worldB\<rparr>"
  let ?wn = "world0\<lparr>trace := trace world0 @ [Open ''/r/N-1.t''], dirbuf := dirname ''/r/N-1.t''\<rparr>"
  let ?w1 = "worldB\<lparr>trace := Open ''/r/N-1.t'' # trace worldB\<rparr>"
  have ext: "strrchr ''/r/K-1.t'' (CHR ''.'') = Some ''.t''"
    "strrchr ''/r/N-1.t'' (CHR ''.'') = Some ''.t''" by simp_all
  have dn: "dirname ''/r/K-1.t'' = ''/r''" "dirname ''/r/N-1.t'' = ''/r''"
    by (simp_all add: dirname_def rstrip_slash_def)
  have b: "dirbuf worldB = ''/r''" by (simp add: worldB_def)

  have opK: "opened (env_open2 env0 ''/r/K-1.t'') = Some (pkgK, arch0, Some aeBin)"
    by (simp add: conc_defs)
  have dK: "pkg_deps pkgK = [depB, depF]" by (simp add: pkgK_def)
  have beforeK: "reaches (nested_add (Suc 0) env0) env0 ''.t'' (loop_start pkgK world0 ''/r/K-1.t'')
     (pkg_resolvdeps pkgK ?wk, ?wk, Suc 0)"
    by (rule reaches_past_B) (simp_all add: dK dn)
  have kK: "Suc 0 < length (pkg_deps pkgK)" by (simp add: dK)
  have unF: "dep_origin depF \<notin> origins worldB"
    by (simp add: origins_def worldB_def depF_def pkgB_def)
  have candF: "env_access env0 (dep_path (dirbuf worldB) depF ''.t'')"
    unfolding b dep_path_r by (rule access0)
  have unK: "dep_origin (pkg_deps pkgK ! Suc 0) \<notin> origins ?wk"
    using unF by (simp add: dK)
  have candK: "env_access env0 (dep_path (dirbuf ?wk) (pkg_deps pkgK ! Suc 0) ''.t'')"
    using candF by (simp add: dK)
  have dpK: "dep_path (dirbuf ?wk) (pkg_deps pkgK ! Suc 0) ''.t'' = ''/r/F-1.t''"
    by (simp add: dK b dep_path_r)
  have nestedK: "pkg_add (Suc 0) env0 ?wk
                   (Some (dep_path (dirbuf ?wk) (pkg_deps pkgK ! Suc 0) ''.t'')) None
                 = Some (EPKG_FATAL, None,
                     ?wk\<lparr>errstr := ''bad archive'', trace := trace ?wk @ [Open ''/r/F-1.t'']\<rparr>)"
    unfolding dpK by (simp add: eval_defs conc_defs)
  from pkg_add_dependency_install [OF opK lookup_world0 ext(1) beforeK kK unK candK nestedK, of None]
  have K: "pkg_add (Suc (Suc 0)) env0 world0 (Some ''/r/K-1.t'') None =
     Some (EPKG_FATAL, None,
           worldB\<lparr>errstr := ''error while installing /r/F-1.t (dependency): bad archive'',
                  trace := Open ''/r/K-1.t'' # trace worldB @ [Open ''/r/F-1.t'', Finish]\<rparr>)"
    unfolding dpK by (simp add: null_out_def)

  have opN: "opened (env_open2 env0 ''/r/N-1.t'') = Some (pkgN, arch0, None)"
    by (simp add: conc_defs)
  have dN: "pkg_deps pkgN = [depB, depB2]" by (simp add: pkgN_def)
  have un0: "dep_origin depB \<notin> origins world0" "dep_origin depB2 \<notin> origins world0"
    by (simp_all add: origins_def world0_def)
  have candB: "env_access env0 (dep_path (dirname ''/r/N-1.t'') depB ''.t'')"
    unfolding dn dep_path_r by (rule access0)
  have nocandB2: "\<not> env_access env0 (dep_path (dirname ''/r/N-1.t'') depB2 ''.t'')"
    unfolding dn dep_path_r by (rule access0)
  have beforeN: "reaches (nested_add (Suc 0) env0) env0 ''.t'' (loop_start pkgN world0 ''/r/N-1.t'')
     (pkg_resolvdeps pkgN world0, ?wn, 0)"
    by (simp add: loop_start_def reaches.here)
  have kN: "0 < length (pkg_deps pkgN)" by (simp add: dN)
  have unN: "dep_origin (pkg_deps pkgN ! 0) \<notin> origins ?wn"
    using un0 by (simp add: dN)
  have candN: "env_access env0 (dep_path (dirbuf ?wn) (pkg_deps pkgN ! 0) ''.t'')"
    using candB by (simp add: dN)
  have nestedN: "pkg_add (Suc 0) env0 ?wn
                   (Some (dep_path (dirbuf ?wn) (pkg_deps pkgN ! 0) ''.t'')) None
                 = Some (EPKG_OK, None, ?w1)"
    by (simp add: eval_defs conc_defs worldB_def)
  have res: "map dep_type (pkg_deps (pkg_resolvdeps pkgN worldB)) = [PKG_INSTALLED, PKG_INSTALLED]"
    by (simp add: pkg_resolvdeps_def resolve_dep_def worldB_def conc_defs)
  note T = pkg_add_dependency_install [OF opN lookup_world0 ext(2) beforeN kN unN candN nestedN, of None]
  from T have reachN:
    "reaches (nested_add (Suc 0) env0) env0 ''.t'' (loop_start pkgN world0 ''/r/N-1.t'')
       (pkg_resolvdeps pkgN ?w1, ?w1, Suc 0)"
    by simp
  from T have N: "map_option fst (pkg_add (Suc (Suc 0)) env0 world0 (Some ''/r/N-1.t'') None)
             = Some EPKG_OK \<and>
           map_option (map pkg_name \<circ> db \<circ> snd \<circ> snd)
             (pkg_add (Suc (Suc 0)) env0 world0 (Some ''/r/N-1.t'') None) = Some [''B'', ''N'']"
    by (simp add: after_loop_def eval_defs conc_defs worldB_def)
  from K N opK opN dK dN beforeK unF candF un0 candB nocandB2 reachN res show ?thesis
    by simp
qed

text \<open>
  The claim as written fails in its last part: the failed installation of the
  dependency \<open>F\<close> of \<open>E\<close> and the missing extension of the path \<open>B\<close> both end
  with the code \<open>EPKG_FATAL\<close>; only the text of the message tells them apart.
\<close>

theorem pkg_add_dependency_install_counterexample:
  "map_option fst (pkg_add (Suc (Suc 0)) env0 world0 (Some ''/r/E-1.t'') None) = Some EPKG_FATAL \<and>
   map_option (errstr \<circ> snd \<circ> snd) (pkg_add (Suc (Suc 0)) env0 world0 (Some ''/r/E-1.t'') None)
     = Some ''error while installing /r/F-1.t (dependency): bad archive'' \<and>
   map_option fst (pkg_add (Suc (Suc 0)) env0 world0 (Some ''B'') None) = Some EPKG_FATAL \<and>
   map_option (errstr \<circ> snd \<circ> snd) (pkg_add (Suc (Suc 0)) env0 world0 (Some ''B'') None)
     = Some ''B has no extension''"
  by (simp add: eval_defs conc_defs)

section \<open>Archives without payload\<close>

text \<open>
  Claim C6, amended.  \<open>pkg_open2\<close> answers \<open>EPKG_END\<close>: the archive has no entry
  beyond its metadata.  This is no error, and the transaction goes on as for any other
  archive.  When the duplicate check finds no record, the path has an extension, and the
  loop over the dependencies has passed every dependency in declared order (each one
  resolved, or installed by a recursive call that returned \<open>EPKG_OK\<close>) and stands
  at their end in the world \<open>wd\<close>, then \<open>pkg_add\<close> runs the pre-install commands, the
  post-install commands and the exec directives, releases the archive and calls the
  registration, and nothing else: no entry is extracted, and the files are those of
  \<open>wd\<close>.  When the database accepts the record, \<open>pkg_add\<close> returns \<open>EPKG_OK\<close> and
  the package is registered; when it refuses, \<open>pkg_add\<close> returns its code.
\<close>

theorem pkg_add_no_entries:
  assumes op: "env_open2 env path = OpenEnd p0 a"
      and dup: "lookup env w (pkg_origin p0) = Some EPKG_END"
      and ext: "strrchr path (CHR ''.'') = Some ext"
      and deps: "reaches (nested_add n env) env ext (loop_start p0 w path)
                   (p, wd, length (pkg_deps p0))"
  shows "pkg_add (Suc n) env w (Some path) pkg_p =
           Some (case env_register env p of
                   None \<Rightarrow>
                     (EPKG_OK,
                      (case pkg_p of None \<Rightarrow> None | Some c \<Rightarrow> Some (Some p)),
                      wd\<lparr>trace := trace wd @ shell env (pre_cmds p0 (pkg_scripts p0))
                                    @ shell env (post_cmds p0 (pkg_scripts p0))
                                    @ shell env (exec_cmds (pkg_execs p0))
                                    @ [Finish, Register p],
                         db := db wd @ [p]\<rparr>)
                 | Some (c, msg) \<Rightarrow>
                     (epkg c, null_out pkg_p,
                      wd\<lparr>trace := trace wd @ shell env (pre_cmds p0 (pkg_scripts p0))
                                    @ shell env (post_cmds p0 (pkg_scripts p0))
                                    @ shell env (exec_cmds (pkg_execs p0))
                                    @ [Finish, Register p],
                         errstr := msg\<rparr>))"
proof -
  have op': "opened (env_open2 env path) = Some (p0, a, None)"
    by (simp add: op)
  note sp = reaches_start(2)[OF deps]
  have e: "length (pkg_deps p) \<le> length (pkg_deps p0)"
    by (simp add: reaches_start(3)[OF deps])
  have "pkg_add (Suc n) env w (Some path) pkg_p =
          Some (cleanup env pkg_p (install_steps env p a None wd))"
    by (simp add: pkg_add_reaches[OF op' dup ext deps] deps_loop_done[OF e] after_loop_def)
  also have "install_steps env p a None wd =
      Opened EPKG_OK p
        (wd\<lparr>trace := trace wd @ shell env (pre_cmds p0 (pkg_scripts p0))
                       @ shell env (post_cmds p0 (pkg_scripts p0))
                       @ shell env (exec_cmds (pkg_execs p0))\<rparr>)"
    by (simp add: install_steps_None same_pkg_cmds[OF sp])
  finally show ?thesis
    by (cases "env_register env p")
       (auto simp: cleanup_registered cleanup_refused simp del: cleanup.simps)
qed

theorem pkg_add_no_entries_witness:
  "env_open2 env0 ''/r/M-1.t'' = OpenEnd pkgM arch0 \<and>
   pkg_deps pkgM = [depB] \<and> pkg_scripts pkgM = [scrPre] \<and> pkg_execs pkgM = [exE] \<and>
   reaches (nested_add (Suc 0) env0) env0 ''.t'' (loop_start pkgM world0 ''/r/M-1.t'')
     (pkg_resolvdeps pkgM (worldB\<lparr>trace := Open ''/r/M-1.t'' # trace worldB\<rparr>),
      worldB\<lparr>trace := Open ''/r/M-1.t'' # trace worldB\<rparr>, Suc 0) \<and>
   pkg_resolvdeps pkgM (worldB\<lparr>trace := Open ''/r/M-1.t'' # trace worldB\<rparr>)
     = pkgM\<lparr>pkg_deps := [depB\<lparr>dep_type := PKG_INSTALLED\<rparr>]\<rparr> \<and>
   pkg_add (Suc (Suc 0)) env0 world0 (Some ''/r/M-1.t'') None =
     Some (EPKG_OK, None,
           worldB\<lparr>trace := Open ''/r/M-1.t'' # trace worldB
                               @ [Shell (''set -- M-1'' @ [CHR 0x0A] @ ''p'') 0,
                                  Shell ''e'' 0, Finish,
                                  Register (pkgM\<lparr>pkg_deps := [depB\<lparr>dep_type := PKG_INSTALLED\<rparr>]\<rparr>)],
                  db := [pkgB, pkgM\<lparr>pkg_deps := [depB\<lparr>dep_type := PKG_INSTALLED\<rparr>]\<rparr>]\<rparr>)"
proof -
  let ?wd = "worldB\<lparr>trace := Open ''/r/M-1.t'' # trace worldB\<rparr>"
  have op: "env_open2 env0 ''/r/M-1.t'' = OpenEnd pkgM arch0"
    by (simp add: env0_def open0_def)
  have ext: "strrchr ''/r/M-1.t'' (CHR ''.'') = Some ''.t''" by simp
  have f: "pkg_deps pkgM = [depB]" "pkg_scripts pkgM = [scrPre]" "pkg_execs pkgM = [exE]"
    by (simp_all add: pkgM_def)
  have r: "reaches (nested_add (Suc 0) env0) env0 ''.t'' (loop_start pkgM world0 ''/r/M-1.t'')
     (pkg_resolvdeps pkgM ?wd, ?wd, Suc 0)"
    by (rule reaches_past_B) (simp_all add: f dirname_def rstrip_slash_def)
  then have r': "reaches (nested_add (Suc 0) env0) env0 ''.t'' (loop_start pkgM world0 ''/r/M-1.t'')
     (pkg_resolvdeps pkgM ?wd, ?wd, length (pkg_deps pkgM))"
    by (simp add: f)
  have p: "pkg_resolvdeps pkgM ?wd = pkgM\<lparr>pkg_deps := [depB\<lparr>dep_type := PKG_INSTALLED\<rparr>]\<rparr>"
    by (simp add: pkg_resolvdeps_def resolve_dep_def worldB_def conc_defs)
  have reg: "env_register env0 x = None" for x by (simp add: env0_def)
  have cmds: "shell env0 (pre_cmds pkgM (pkg_scripts pkgM)) @
              shell env0 (post_cmds pkgM (pkg_scripts pkgM)) @
              shell env0 (exec_cmds (pkg_execs pkgM)) =
                [Shell (''set -- M-1'' @ [CHR 0x0A] @ ''p'') 0, Shell ''e'' 0]"
    by (simp add: pre_cmds_def post_cmds_def exec_cmds_def shell_def script_cmd_def conc_defs)
  have d: "db worldB = [pkgB]" by (simp add: worldB_def)
  from pkg_add_no_entries [OF op lookup_world0 ext r', of None]
  have "pkg_add (Suc (Suc 0)) env0 world0 (Some ''/r/M-1.t'') None =
     Some (EPKG_OK, None,
           worldB\<lparr>trace := Open ''/r/M-1.t'' # trace worldB
                               @ [Shell (''set -- M-1'' @ [CHR 0x0A] @ ''p'') 0,
                                  Shell ''e'' 0, Finish,
                                  Register (pkgM\<lparr>pkg_deps := [depB\<lparr>dep_type := PKG_INSTALLED\<rparr>]\<rparr>)],
                  db := [pkgB, pkgM\<lparr>pkg_deps := [depB\<lparr>dep_type := PKG_INSTALLED\<rparr>]\<rparr>]\<rparr>)"
    unfolding p using cmds by (simp add: reg d)
  with op f r p show ?thesis by simp
qed

text \<open>
  The claim as written fails when another step ends the transaction: the archive at the
  path \<open>B\<close> has no payload, the path has no extension, and \<open>pkg_add\<close> returns
  \<open>EPKG_FATAL\<close> without having run a script or registered the package.
\<close>

theorem pkg_add_no_entries_counterexample:
  "env_open2 env0 ''B'' = OpenEnd pkgB arch0 \<and>
   pkg_add (Suc 0) env0 world0 (Some ''B'') None =
     Some (EPKG_FATAL, None,
           world0\<lparr>errstr := ''B has no extension'', dirbuf := ''.'',
                  trace := [Open ''B'', Finish]\<rparr>) \<and>
   db world0 = []"
  by (simp add: eval_defs conc_defs)

section \<open>The order of scripts, extraction and exec directives\<close>

text \<open>
  Claim C7, amended.  A run of \<open>pkg_add\<close> that returns \<open>EPKG_OK\<close> has opened the
  archive and passed every dependency in declared order (each one resolved, or
  installed by a recursive call that returned \<open>EPKG_OK\<close>), which has led to the
  world \<open>wd\<close>; the calls \<open>t_deps\<close> are those of the recursive calls.  The
  collaborator calls that follow are exactly these, in this order: the commands of the pre-install
  phase, which are the \<open>INSTALL\<close> scripts (with the marker \<open>INSTALL\<close>) and the
  \<open>PRE_INSTALL\<close> scripts in the order in which the package declares them; the
  extraction of every entry of the payload, in the order of the archive (none when the
  archive has no payload); the commands of the post-install phase, which are the
  \<open>INSTALL\<close> scripts (with the marker \<open>POST-INSTALL\<close>) and the \<open>POST_INSTALL\<close>
  scripts in declared order; the commands of the exec directives of type \<open>PKG_EXEC\<close>
  in declared order (those of type \<open>PKG_UNEXEC\<close> are left out); the release of the
  archive; the registration.  For a package that declares a pre-install, an install and
  a post-install script in this order, the commands are pre-install, install with
  \<open>INSTALL\<close>, then install with \<open>POST-INSTALL\<close>, post-install.
\<close>

theorem pkg_add_execution_order:
  assumes op: "opened (env_open2 env path) = Some (p0, a, aeo)"
      and run: "pkg_add (Suc n) env w (Some path) pkg_p = Some (EPKG_OK, out, w')"
  shows "(\<exists>ext p wd t_deps.
            strrchr path (CHR ''.'') = Some ext \<and>
            reaches (nested_add n env) env ext (loop_start p0 w path)
              (p, wd, length (pkg_deps p0)) \<and>
            trace wd = trace w @ [Open path] @ t_deps \<and>
            trace w' = trace wd
                         @ shell env (pre_cmds p0 (pkg_scripts p0))
                         @ extract_events a aeo
                         @ shell env (post_cmds p0 (pkg_scripts p0))
                         @ shell env (map pkg_exec_cmd
                              (filter (\<lambda>e. pkg_exec_type e = PKG_EXEC) (pkg_execs p0)))
                         @ [Finish, Register p]) \<and>
         (\<forall>s1 s2 s3.
            pkg_scripts p0 = [s1, s2, s3] \<and> pkg_script_type s1 = PKG_SCRIPT_PRE_INSTALL \<and>
            pkg_script_type s2 = PKG_SCRIPT_INSTALL \<and> pkg_script_type s3 = PKG_SCRIPT_POST_INSTALL
            \<longrightarrow> pre_cmds p0 (pkg_scripts p0)
                  = [script_cmd p0 [] s1, script_cmd p0 '' INSTALL'' s2] \<and>
                post_cmds p0 (pkg_scripts p0)
                  = [script_cmd p0 '' POST-INSTALL'' s2, script_cmd p0 [] s3])"
proof -
  from pkg_add_OK[OF op run] obtain ext pk and wd ws :: world where
    ext: "strrchr path (CHR ''.'') = Some ext"
    and r: "reaches (nested_add n env) env ext (loop_start p0 w path)
              (pk, wd, length (pkg_deps p0))"
    and i: "install_steps env pk a aeo wd = Opened EPKG_OK pk ws"
    and w': "w' = ws\<lparr>trace := trace ws @ [Finish, Register pk], db := db ws @ [pk]\<rparr>"
    by blast
  note sp = reaches_start(2)[OF r]
  from install_steps_OK[OF i] have
    "trace ws = trace wd @ shell env (pre_cmds pk (pkg_scripts pk)) @ extract_events a aeo
             @ shell env (post_cmds pk (pkg_scripts pk)) @ shell env (exec_cmds (pkg_execs pk))"
    by simp
  then have
    "trace ws = trace wd @ shell env (pre_cmds p0 (pkg_scripts p0)) @ extract_events a aeo
             @ shell env (post_cmds p0 (pkg_scripts p0)) @ shell env (exec_cmds (pkg_execs p0))"
    unfolding same_pkg_cmds[OF sp] .
  with w' have "trace w' = trace wd
                         @ shell env (pre_cmds p0 (pkg_scripts p0))
                         @ extract_events a aeo
                         @ shell env (post_cmds p0 (pkg_scripts p0))
                         @ shell env (map pkg_exec_cmd
                              (filter (\<lambda>e. pkg_exec_type e = PKG_EXEC) (pkg_execs p0)))
                         @ [Finish, Register pk]"
    by (simp add: exec_cmds_def)
  moreover from reaches_trace[OF r] obtain t_deps where
    "trace wd = trace w @ [Open path] @ t_deps" ..
  ultimately have A: "\<exists>ext p wd t_deps.
            strrchr path (CHR ''.'') = Some ext \<and>
            reaches (nested_add n env) env ext (loop_start p0 w path)
              (p, wd, length (pkg_deps p0)) \<and>
            trace wd = trace w @ [Open path] @ t_deps \<and>
            trace w' = trace wd
                         @ shell env (pre_cmds p0 (pkg_scripts p0))
                         @ extract_events a aeo
                         @ shell env (post_cmds p0 (pkg_scripts p0))
                         @ shell env (map pkg_exec_cmd
                              (filter (\<lambda>e. pkg_exec_type e = PKG_EXEC) (pkg_execs p0)))
                         @ [Finish, Register p]"
    using ext r by blast
  have B: "\<forall>s1 s2 s3.
            pkg_scripts p0 = [s1, s2, s3] \<and> pkg_script_type s1 = PKG_SCRIPT_PRE_INSTALL \<and>
            pkg_script_type s2 = PKG_SCRIPT_INSTALL \<and> pkg_script_type s3 = PKG_SCRIPT_POST_INSTALL
            \<longrightarrow> pre_cmds p0 (pkg_scripts p0)
                  = [script_cmd p0 [] s1, script_cmd p0 '' INSTALL'' s2] \<and>
                post_cmds p0 (pkg_scripts p0)
                  = [script_cmd p0 '' POST-INSTALL'' s2, script_cmd p0 [] s3]"
    by (simp add: pre_cmds_def post_cmds_def)
  from A B show ?thesis by blast
qed

theorem pkg_add_execution_order_witness:
  "opened (env_open2 env0 ''/r/H-1.t'') = Some (pkgH, arch0, Some aeBin) \<and>
   pkg_scripts pkgH = [scrPre, scrIns, scrPost] \<and>
   pkg_script_type scrPre = PKG_SCRIPT_PRE_INSTALL \<and>
   pkg_script_type scrIns = PKG_SCRIPT_INSTALL \<and>
   pkg_script_type scrPost = PKG_SCRIPT_POST_INSTALL \<and>
   pkg_execs pkgH = [exU, exE] \<and>
   pkg_exec_type exU = PKG_UNEXEC \<and> pkg_exec_type exE = PKG_EXEC \<and>
   pkg_add (Suc 0) env0 world0 (Some ''/r/H-1.t'') None = Some (EPKG_OK, None, worldH) \<and>
   pre_cmds pkgH (pkg_scripts pkgH)
     = [script_cmd pkgH [] scrPre, script_cmd pkgH '' INSTALL'' scrIns] \<and>
   post_cmds pkgH (pkg_scripts pkgH)
     = [script_cmd pkgH '' POST-INSTALL'' scrIns, script_cmd pkgH [] scrPost] \<and>
   trace worldH =
     [Open ''/r/H-1.t'',
      Shell (script_cmd pkgH [] scrPre) 0,
      Shell (script_cmd pkgH '' INSTALL'' scrIns) 0,
      Extract ''g'' ''bin'',
      Shell (script_cmd pkgH '' POST-INSTALL'' scrIns) 0,
      Shell (script_cmd pkgH [] scrPost) 0,
      Shell (pkg_exec_cmd exE) 0,
      Finish, Register pkgH]"
proof -
  have sc: "pkg_scripts pkgH = [scrPre, scrIns, scrPost]"
    "pkg_script_type scrPre = PKG_SCRIPT_PRE_INSTALL"
    "pkg_script_type scrIns = PKG_SCRIPT_INSTALL"
    "pkg_script_type scrPost = PKG_SCRIPT_POST_INSTALL"
    "pkg_execs pkgH = [exU, exE]"
    "pkg_exec_type exU = PKG_UNEXEC" "pkg_exec_type exE = PKG_EXEC"
    by (simp_all add: pkgH_def scrPre_def scrIns_def scrPost_def exU_def exE_def)
  have tr: "trace worldH =
     [Open ''/r/H-1.t'',
      Shell (script_cmd pkgH [] scrPre) 0,
      Shell (script_cmd pkgH '' INSTALL'' scrIns) 0,
      Extract ''g'' ''bin'',
      Shell (script_cmd pkgH '' POST-INSTALL'' scrIns) 0,
      Shell (script_cmd pkgH [] scrPost) 0,
      Shell (pkg_exec_cmd exE) 0,
      Finish, Register pkgH]"
    by (simp add: worldH_def script_cmd_def pkgH_def scrPre_def scrIns_def scrPost_def exE_def)
  from pkg_add_execution_order [OF opened_H pkg_add_H] sc
  have "pre_cmds pkgH (pkg_scripts pkgH)
          = [script_cmd pkgH [] scrPre, script_cmd pkgH '' INSTALL'' scrIns] \<and>
        post_cmds pkgH (pkg_scripts pkgH)
          = [script_cmd pkgH '' POST-INSTALL'' scrIns, script_cmd pkgH [] scrPost]"
    by blast
  with sc tr opened_H pkg_add_H show ?thesis by simp
qed

text \<open>
  The claim as written fails for a package that declares its install script before
  its pre-install script: \<open>G\<close> has one script of each kind and one exec directive, and
  its install script runs (with the marker \<open>INSTALL\<close>) before its pre-install script.
\<close>

theorem pkg_add_execution_order_counterexample:
  "pkg_scripts pkgG = [scrIns, scrPre, scrPost] \<and>
   pkg_script_type scrIns = PKG_SCRIPT_INSTALL \<and>
   pkg_script_type scrPre = PKG_SCRIPT_PRE_INSTALL \<and>
   pkg_script_type scrPost = PKG_SCRIPT_POST_INSTALL \<and>
   pkg_execs pkgG = [exE] \<and> pkg_exec_type exE = PKG_EXEC \<and>
   map_option fst (pkg_add (Suc 0) env0 (world0\<lparr>db := [pkgB]\<rparr>) (Some ''/r/G-1.t'') None)
     = Some EPKG_OK \<and>
   map_option (take 4 \<circ> trace \<circ> snd \<circ> snd)
       (pkg_add (Suc 0) env0 (world0\<lparr>db := [pkgB]\<rparr>) (Some ''/r/G-1.t'') None)
     = Some [Open ''/r/G-1.t'',
             Shell (script_cmd pkgG '' INSTALL'' scrIns) 0,
             Shell (script_cmd pkgG [] scrPre) 0,
             Extract ''g'' ''bin'']"
  by (simp add: eval_defs conc_defs)

section \<open>Packages that are already installed\<close>




section \<open>Registration is the last step\<close>

text \<open>
  Claim C1, amended.  In every run of \<open>pkg_add\<close> on a path that is not \<open>NULL\<close>, the
  collaborator calls are: the opening of the archive; then the calls \<open>tn\<close> of the
  recursive calls for dependencies, which lead from a world \<open>u\<close> to a world \<open>v\<close>
  and are the only thing that happens in between; then the calls \<open>t\<close> of the
  invocation itself.  The registration is attempted if and only if every earlier step
  has completed.  It is then the last call, after the release of the archive, it is the
  only registration among \<open>t\<close>, and it is the registration of the descriptor that
  \<open>pkg_open2\<close> produced, with its dependencies resolved; \<open>pkg_add\<close> returns its
  code, and the record is added to the database of \<open>v\<close> when the database accepts
  it.  When an
  earlier step fails, \<open>pkg_add\<close> returns a code other than \<open>EPKG_OK\<close>, there is no
  registration among \<open>t\<close>, and the database is the one of \<open>v\<close>: the invocation has
  not registered the package.  The database of \<open>v\<close> is not rolled back: it holds what
  the recursive calls for dependencies have registered.  When the failure is that of the
  opening, of the duplicate check or of the extension check, there has been no
  recursive call, and the database is the one before the call.
\<close>

theorem pkg_add_register_iff:
  assumes run: "pkg_add (Suc n) env w (Some path) pkg_p = Some (rc, out, w')"
  shows "\<exists>u v tn t.
           db u = db w \<and> trace u = trace w @ [Open path] \<and>
           nested_only (nested_add n env) u v \<and> trace v = trace u @ tn \<and>
           trace w' = trace v @ t \<and>
           (if steps_ok (nested_add n env) env w path
            then (\<exists>p0 a aeo t0.
                    opened (env_open2 env path) = Some (p0, a, aeo) \<and>
                    t = t0 @ [Finish, Register (pkg_resolvdeps p0 v)] \<and>
                    (\<forall>e \<in> set t0. \<not> is_Register e) \<and>
                    db w' = db v @ (if env_register env (pkg_resolvdeps p0 v) = None
                                    then [pkg_resolvdeps p0 v] else []) \<and>
                    (rc = EPKG_OK \<longleftrightarrow> env_register env (pkg_resolvdeps p0 v) = None))
            else rc \<noteq> EPKG_OK \<and> db w' = db v \<and> (\<forall>e \<in> set t. \<not> is_Register e) \<and>
                 (opened (env_open2 env path) = None \<or>
                  (\<exists>p0 a aeo. opened (env_open2 env path) = Some (p0, a, aeo) \<and>
                     (lookup env w (pkg_origin p0) \<noteq> Some EPKG_END \<or> CHR ''.'' \<notin> set path))
                  \<longrightarrow> v = u))"
proof -
  have main: "\<exists>u v t.
               db u = db w \<and> trace u = trace w @ [Open path] \<and>
               nested_only (nested_add n env) u v \<and> trace w' = trace v @ t \<and>
               (if steps_ok (nested_add n env) env w path
                then (\<exists>p0 a aeo t0.
                        opened (env_open2 env path) = Some (p0, a, aeo) \<and>
                        t = t0 @ [Finish, Register (pkg_resolvdeps p0 v)] \<and>
                        (\<forall>e \<in> set t0. \<not> is_Register e) \<and>
                        db w' = db v @ (if env_register env (pkg_resolvdeps p0 v) = None
                                        then [pkg_resolvdeps p0 v] else []) \<and>
                        (rc = EPKG_OK \<longleftrightarrow> env_register env (pkg_resolvdeps p0 v) = None))
                else rc \<noteq> EPKG_OK \<and> db w' = db v \<and> (\<forall>e \<in> set t. \<not> is_Register e) \<and>
                     (opened (env_open2 env path) = None \<or>
                      (\<exists>p0 a aeo. opened (env_open2 env path) = Some (p0, a, aeo) \<and>
                         (lookup env w (pkg_origin p0) \<noteq> Some EPKG_END \<or> CHR ''.'' \<notin> set path))
                      \<longrightarrow> v = u))"
  proof (cases "opened (env_open2 env path)")
    case None
    then have nok: "\<not> steps_ok (nested_add n env) env w path"
      by (simp add: steps_ok_def)
    from pkg_add_body_unopened[OF None, of "nested_add n env" w] run
    obtain c msg where "rc = epkg c"
      "w' = w\<lparr>errstr := msg, trace := trace w @ [Open path]\<rparr>"
      by (auto simp: pkg_add_Suc)
    with nok show ?thesis
      by (intro exI[of _ w'] exI[of _ "[]"]) (simp add: nested_only_def)
  next
    case (Some x)
    then obtain p0 a aeo where op: "opened (env_open2 env path) = Some (p0, a, aeo)"
      by (cases x) auto
    let ?R = "nested_add n env"
    let ?w1 = "w\<lparr>trace := trace w @ [Open path]\<rparr>"
    let ?s = "w\<lparr>trace := trace w @ [Open path], dirbuf := dirname path\<rparr>"
    from run obtain st where
      st: "after_open ?R env path p0 a aeo ?w1 = Some st"
      and cl: "cleanup env pkg_p st = (rc, out, w')"
      by (auto simp: pkg_add_Suc pkg_add_body_opened[OF op])
    note iff = after_open_steps_ok[OF op st]
    show ?thesis
    proof (cases "lookup env w (pkg_origin p0) = Some EPKG_END \<and> strrchr path (CHR ''.'') \<noteq> None")
      case False
      then have early: "lookup env w (pkg_origin p0) \<noteq> Some EPKG_END \<or> strrchr path (CHR ''.'') = None"
        by blast
      from pkg_add_early[OF op early run] obtain ws :: world where
        rc: "rc \<noteq> EPKG_OK" and ws: "db ws = db w" "trace ws = trace w @ [Open path]"
        and w': "w' = ws\<lparr>trace := trace ws @ [Finish]\<rparr>"
        by blast
      from early have nok: "\<not> steps_ok ?R env w path"
        by (auto simp: steps_ok_def op split: option.splits)
      from rc ws w' nok show ?thesis
        by (intro exI[of _ ws] exI[of _ "[Finish]"])
           (simp add: nested_only_def is_Register_def)
    next
      case True
      then obtain ext where dup: "lookup env w (pkg_origin p0) = Some EPKG_END"
        and ext: "strrchr path (CHR ''.'') = Some ext" by auto
      from ext have dot: "CHR ''.'' \<in> set path"
        using strrchr_None_iff[of path "CHR ''.''"] by auto
      have late: "\<not> (opened (env_open2 env path) = None \<or>
                    (\<exists>p0 a aeo. opened (env_open2 env path) = Some (p0, a, aeo) \<and>
                       (lookup env w (pkg_origin p0) \<noteq> Some EPKG_END \<or> CHR ''.'' \<notin> set path)))"
        using op dup dot by simp
      from pkg_add_cases[OF op dup ext run] obtain pk wk k res where
        r: "reaches ?R env ext (loop_start p0 w path) (pk, wk, k)"
        and l: "loop_end ?R env ext pk wk k res"
        and c: "cleanup env pkg_p (after_loop env a aeo res) = (rc, out, w')"
        by blast
      from loop_end_deps_loop[OF l] reaches_deps_loop[OF r[unfolded loop_start_def]]
      have "deps_loop ?R env ext (pkg_resolvdeps p0 w) ?s 0 = Some res" by simp
      with st dup ext have st': "st = after_loop env a aeo res"
        by (auto simp: after_open_lookup after_loop_def split: prod.splits if_splits)
      obtain rcd p' wd where res: "res = (rcd, p', wd)" by (cases res)
      note pk = reaches_start(1)[OF r]
      note no = reaches_start(4)[OF r]
      from loop_end_world[OF l[unfolded res]] obtain v where
        p': "p' = pk" and v: "v = wk \<or> nested_step ?R wk v"
        and e: "db wd = db v" "trace wd = trace v"
        and okw: "rcd = EPKG_OK \<longrightarrow> wd = wk"
        by blast
      from no v have nv: "nested_only ?R ?s v"
        by (auto simp: nested_only_def intro: rtranclp.rtrancl_into_rtrancl)
      have u: "db ?s = db w" "trace ?s = trace w @ [Open path]" by simp_all
      show ?thesis
      proof (cases "rcd = EPKG_OK")
        case False
        with st' res iff have nok: "\<not> steps_ok ?R env w path"
          by (simp add: after_loop_def)
        from c res False have "rc = rcd" "w' = wd\<lparr>trace := trace wd @ [Finish]\<rparr>"
          by (simp_all add: after_loop_def)
        with False e nok late u nv show ?thesis
          by - (rule exI[of _ ?s], rule exI[of _ v], rule exI[of _ "[Finish]"],
                auto simp: is_Register_def)
      next
        case True
        with okw have wd: "wd = wk" by simp
        from install_steps_shape[of env pk a aeo wk] obtain ri ws where
          i: "install_steps env pk a aeo wk = Opened ri pk ws" by blast
        from install_steps_trace[OF i] obtain t1 where
          d1: "db ws = db wk" and t1: "trace ws = trace wk @ t1"
          and n1: "\<forall>e \<in> set t1. \<not> is_Register e"
          by auto
        from st' res True p' wd i have sti: "st = Opened ri pk ws"
          by (simp add: after_loop_def)
        from c res True p' wd i have ci: "cleanup env pkg_p (Opened ri pk ws) = (rc, out, w')"
          by (simp add: after_loop_def)
        have nk: "nested_only ?R ?s wk" by (rule no)
        show ?thesis
        proof (cases "ri = EPKG_OK")
          case False
          with sti iff have nok: "\<not> steps_ok ?R env w path" by simp
          from ci False have "rc = ri" "w' = ws\<lparr>trace := trace ws @ [Finish]\<rparr>"
            by simp_all
          with False d1 t1 n1 nok late u nk show ?thesis
            by - (rule exI[of _ ?s], rule exI[of _ wk], rule exI[of _ "t1 @ [Finish]"],
                  auto simp: is_Register_def)
        next
          case ok: True
          with sti iff have sok: "steps_ok ?R env w path" by simp
          from ci ok have
            "trace w' = trace ws @ [Finish, Register pk]"
            "db w' = db ws @ (if env_register env pk = None then [pk] else [])"
            "rc = EPKG_OK \<longleftrightarrow> env_register env pk = None"
            by (auto simp: pkgdb_register_pkg_def Let_def split: option.splits)
          with d1 t1 have
            "trace w' = trace wk @ (t1 @ [Finish, Register (pkg_resolvdeps p0 wk)])"
            "db w' = db wk @ (if env_register env (pkg_resolvdeps p0 wk) = None
                              then [pkg_resolvdeps p0 wk] else [])"
            "rc = EPKG_OK \<longleftrightarrow> env_register env (pkg_resolvdeps p0 wk) = None"
            by (simp_all add: pk[symmetric])
          with sok op n1 u nk show ?thesis
            by - (rule exI[of _ ?s], rule exI[of _ wk],
                  rule exI[of _ "t1 @ [Finish, Register (pkg_resolvdeps p0 wk)]"], simp)
        qed
      qed
    qed
  qed
  then obtain u v t where
    a: "db u = db w" "trace u = trace w @ [Open path]" "nested_only (nested_add n env) u v"
       "trace w' = trace v @ t"
    and b: "if steps_ok (nested_add n env) env w path
            then (\<exists>p0 a aeo t0.
                    opened (env_open2 env path) = Some (p0, a, aeo) \<and>
                    t = t0 @ [Finish, Register (pkg_resolvdeps p0 v)] \<and>
                    (\<forall>e \<in> set t0. \<not> is_Register e) \<and>
                    db w' = db v @ (if env_register env (pkg_resolvdeps p0 v) = None
                                    then [pkg_resolvdeps p0 v] else []) \<and>
                    (rc = EPKG_OK \<longleftrightarrow> env_register env (pkg_resolvdeps p0 v) = None))
            else rc \<noteq> EPKG_OK \<and> db w' = db v \<and> (\<forall>e \<in> set t. \<not> is_Register e) \<and>
                 (opened (env_open2 env path) = None \<or>
                  (\<exists>p0 a aeo. opened (env_open2 env path) = Some (p0, a, aeo) \<and>
                     (lookup env w (pkg_origin p0) \<noteq> Some EPKG_END \<or> CHR ''.'' \<notin> set path))
                  \<longrightarrow> v = u)"
    by blast
  have step: "\<exists>t. trace y = trace x @ t" if "nested_add n env x dp = Some (r, y)" for x dp r y
    using that pkg_add_trace[of n env x "Some dp" None] by (auto simp: nested_add_def)
  have "\<exists>tn. trace v = trace u @ tn"
    by (rule nested_only_trace[OF _ a(3)]) (rule step)
  then obtain tn where "trace v = trace u @ tn" ..
  with a b show ?thesis by blast
qed

theorem pkg_add_register_iff_witness:
  "steps_ok (nested_add (Suc 0) env0) env0 world0 ''/r/M-1.t'' \<and>
   pkg_add (Suc (Suc 0)) env0 world0 (Some ''/r/M-1.t'') None = Some (EPKG_OK, None, worldM) \<and>
   (\<exists>u v tn t0.
      db u = db world0 \<and> trace u = trace world0 @ [Open ''/r/M-1.t''] \<and>
      nested_only (nested_add (Suc 0) env0) u v \<and> trace v = trace u @ tn \<and>
      trace worldM = trace v @ t0 @ [Finish, Register (pkg_resolvdeps pkgM v)] \<and>
      (\<forall>e \<in> set t0. \<not> is_Register e) \<and>
      db worldM = db v @ [pkg_resolvdeps pkgM v]) \<and>
   db worldM = [pkgB, pkgM\<lparr>pkg_deps := [depB\<lparr>dep_type := PKG_INSTALLED\<rparr>]\<rparr>] \<and>
   \<not> steps_ok (nested_add (Suc 0) env0) env0 world0 ''/r/A-1.t'' \<and>
   pkg_add (Suc (Suc 0)) env0 world0 (Some ''/r/A-1.t'') None
     = Some (EPKG_DEPENDENCY, None, worldA) \<and>
   (\<exists>u v tn t.
      db u = db world0 \<and> trace u = trace world0 @ [Open ''/r/A-1.t''] \<and>
      nested_only (nested_add (Suc 0) env0) u v \<and> trace v = trace u @ tn \<and>
      trace worldA = trace v @ t \<and>
      EPKG_DEPENDENCY \<noteq> EPKG_OK \<and> db worldA = db v \<and> (\<forall>e \<in> set t. \<not> is_Register e)) \<and>
   db worldA = [pkgB]"
proof -
  have opM: "opened (env_open2 env0 ''/r/M-1.t'') = Some (pkgM, arch0, None)"
    by (simp add: conc_defs)
  have reg: "env_register env0 x = None" for x by (simp add: env0_def)
  from pkg_add_register_iff [OF pkg_add_M] obtain u v tn t where
    m: "db u = db world0" "trace u = trace world0 @ [Open ''/r/M-1.t'']"
       "nested_only (nested_add (Suc 0) env0) u v" "trace v = trace u @ tn"
       "trace worldM = trace v @ t"
    and "\<exists>p0 a aeo t0.
            opened (env_open2 env0 ''/r/M-1.t'') = Some (p0, a, aeo) \<and>
            t = t0 @ [Finish, Register (pkg_resolvdeps p0 v)] \<and>
            (\<forall>e \<in> set t0. \<not> is_Register e) \<and>
            db worldM = db v @ (if env_register env0 (pkg_resolvdeps p0 v) = None
                                then [pkg_resolvdeps p0 v] else []) \<and>
            (EPKG_OK = EPKG_OK \<longleftrightarrow> env_register env0 (pkg_resolvdeps p0 v) = None)"
    unfolding if_P[OF steps_ok_M] by blast
  then obtain t0 where
    "t = t0 @ [Finish, Register (pkg_resolvdeps pkgM v)]" "\<forall>e \<in> set t0. \<not> is_Register e"
    "db worldM = db v @ [pkg_resolvdeps pkgM v]"
    unfolding opM by (auto simp: reg)
  with m have M: "\<exists>u v tn t0.
      db u = db world0 \<and> trace u = trace world0 @ [Open ''/r/M-1.t''] \<and>
      nested_only (nested_add (Suc 0) env0) u v \<and> trace v = trace u @ tn \<and>
      trace worldM = trace v @ t0 @ [Finish, Register (pkg_resolvdeps pkgM v)] \<and>
      (\<forall>e \<in> set t0. \<not> is_Register e) \<and>
      db worldM = db v @ [pkg_resolvdeps pkgM v]"
    by blast
  from pkg_add_register_iff [OF pkg_add_A]
  have A: "\<exists>u v tn t.
      db u = db world0 \<and> trace u = trace world0 @ [Open ''/r/A-1.t''] \<and>
      nested_only (nested_add (Suc 0) env0) u v \<and> trace v = trace u @ tn \<and>
      trace worldA = trace v @ t \<and>
      EPKG_DEPENDENCY \<noteq> EPKG_OK \<and> db worldA = db v \<and> (\<forall>e \<in> set t. \<not> is_Register e)"
    unfolding if_not_P[OF not_steps_ok_A] by blast
  have d: "db worldM = [pkgB, pkgM\<lparr>pkg_deps := [depB\<lparr>dep_type := PKG_INSTALLED\<rparr>]\<rparr>]"
    "db worldA = [pkgB]"
    by (simp_all add: worldM_def worldA_def worldB_def)
  from M A d steps_ok_M not_steps_ok_A pkg_add_M pkg_add_A show ?thesis
    by blast
qed

text \<open>
  The claim as written fails when a dependency has been installed before the failure:
  \<open>A\<close> depends on \<open>B\<close>, whose archive is there, and on \<open>C\<close>, whose archive is
  missing.  The transaction of \<open>A\<close> fails with \<open>EPKG_DEPENDENCY\<close>, and the database,
  empty before, holds the record of \<open>B\<close>.
\<close>

theorem pkg_add_register_iff_counterexample:
  "map_option fst (pkg_add (Suc (Suc 0)) env0 world0 (Some ''/r/A-1.t'') None)
     = Some EPKG_DEPENDENCY \<and>
   db world0 = [] \<and>
   map_option (db \<circ> snd \<circ> snd) (pkg_add (Suc (Suc 0)) env0 world0 (Some ''/r/A-1.t'') None)
     = Some [pkgB]"
  by (simp add: eval_defs conc_defs)

section \<open>Exit statuses of scripts and exec directives\<close>

text \<open>
  Claim C8.  Two runs of \<open>pkg_add\<close> from the same world, with the same arguments and
  with collaborators that differ only in the exit statuses that \<open>system\<close> returns,
  either both fail to return or return the same code and the same out-parameter and
  leave the same database, the same files and the same error message.  (The traces
  differ: they record the statuses.)
\<close>

theorem pkg_add_ignores_exit_status:
  "map_option (\<lambda>(rc, out, w'). (rc, out, db w', files w', errstr w'))
     (pkg_add n (env\<lparr>env_system := s1\<rparr>) w path pkg_p)
   = map_option (\<lambda>(rc, out, w'). (rc, out, db w', files w', errstr w'))
       (pkg_add n (env\<lparr>env_system := s2\<rparr>) w path pkg_p)"
proof -
  have e: "env_agree (env\<lparr>env_system := s1\<rparr>) (env\<lparr>env_system := s2\<rparr>)"
    by (simp add: env_agree_def)
  from agree_pkg_add[OF e agree_refl, of n w path pkg_p] show ?thesis
    by (cases "pkg_add n (env\<lparr>env_system := s1\<rparr>) w path pkg_p";
        cases "pkg_add n (env\<lparr>env_system := s2\<rparr>) w path pkg_p")
       (auto simp: agree_def)
qed

theorem pkg_add_ignores_exit_status_witness:
  "map_option (\<lambda>(rc, out, w'). (rc, out, db w', files w', errstr w'))
     (pkg_add (Suc 0) (env0\<lparr>env_system := (\<lambda>cmd. 1)\<rparr>) world0 (Some ''/r/B-1.t'') None)
   = Some (EPKG_OK, None, [pkgB], Map.empty, []) \<and>
   map_option (\<lambda>(rc, out, w'). (rc, out, db w', files w', errstr w'))
     (pkg_add (Suc 0) (env0\<lparr>env_system := (\<lambda>cmd. 0)\<rparr>) world0 (Some ''/r/B-1.t'') None)
   = Some (EPKG_OK, None, [pkgB], Map.empty, []) \<and>
   map_option (last \<circ> butlast \<circ> butlast \<circ> trace \<circ> snd \<circ> snd)
     (pkg_add (Suc 0) (env0\<lparr>env_system := (\<lambda>cmd. 1)\<rparr>) world0 (Some ''/r/B-1.t'') None)
   = Some (Shell ''e'' 1) \<and>
   map_option (last \<circ> butlast \<circ> butlast \<circ> trace \<circ> snd \<circ> snd)
     (pkg_add (Suc 0) (env0\<lparr>env_system := (\<lambda>cmd. 0)\<rparr>) world0 (Some ''/r/B-1.t'') None)
   = Some (Shell ''e'' 0)"
proof -
  have one: "map_option (\<lambda>(rc, out, w'). (rc, out, db w', files w', errstr w'))
     (pkg_add (Suc 0) (env0\<lparr>env_system := (\<lambda>cmd. 1)\<rparr>) world0 (Some ''/r/B-1.t'') None)
   = Some (EPKG_OK, None, [pkgB], Map.empty, [])"
    by (simp add: eval_defs conc_defs)
  have t1: "map_option (last \<circ> butlast \<circ> butlast \<circ> trace \<circ> snd \<circ> snd)
     (pkg_add (Suc 0) (env0\<lparr>env_system := (\<lambda>cmd. 1)\<rparr>) world0 (Some ''/r/B-1.t'') None)
   = Some (Shell ''e'' 1)"
    by (simp add: eval_defs conc_defs)
  have t0: "map_option (last \<circ> butlast \<circ> butlast \<circ> trace \<circ> snd \<circ> snd)
     (pkg_add (Suc 0) (env0\<lparr>env_system := (\<lambda>cmd. 0)\<rparr>) world0 (Some ''/r/B-1.t'') None)
   = Some (Shell ''e'' 0)"
    by (simp add: eval_defs conc_defs)
  from pkg_add_ignores_exit_status
         [where n="Suc 0" and env=env0 and ?s1.0="\<lambda>cmd. 1" and ?s2.0="\<lambda>cmd. 0" and w=world0
            and path="Some ''/r/B-1.t''" and pkg_p=None] one
  have zero: "map_option (\<lambda>(rc, out, w'). (rc, out, db w', files w', errstr w'))
     (pkg_add (Suc 0) (env0\<lparr>env_system := (\<lambda>cmd. 0)\<rparr>) world0 (Some ''/r/B-1.t'') None)
   = Some (EPKG_OK, None, [pkgB], Map.empty, [])"
    by simp
  from one zero t1 t0 show ?thesis by blast
qed

end
